theory Spec2Isabelle
  imports Main "HOL-Library.Word"
begin

unbundle bit_operations_syntax

section \<open>SquirrelDB C client: connection and multiplexing engine\<close>

text \<open>
  A shallow embedding of \<^verbatim>\<open>src/squirreldb.c\<close>. Each definition carries the name of
  the C function it translates. Conventions:
  \<^item> \<^verbatim>\<open>uint8_t\<close>, \<^verbatim>\<open>uint16_t\<close>, \<^verbatim>\<open>uint32_t\<close>, \<^verbatim>\<open>uint64_t\<close> are words of that width;
    \<^verbatim>\<open>size_t\<close> lengths of objects that exist in memory are \<open>nat\<close>; \<^verbatim>\<open>int\<close> is \<open>int\<close>;
  \<^item> a NUL-terminated \<^verbatim>\<open>char *\<close> is a \<open>string\<close>, read up to its first NUL character
    (\<open>cstr\<close>); a pointer that may be \<^verbatim>\<open>NULL\<close> is an \<open>option\<close>;
  \<^item> the socket is a value: the results its system calls are going to deliver, in order,
    and the bytes written to it so far; a call whose script is exhausted never returns,
    which is the result \<open>None\<close>;
  \<^item> \<^verbatim>\<open>malloc\<close>, \<^verbatim>\<open>calloc\<close> and \<^verbatim>\<open>strdup\<close> are taken to succeed, so the
    \<^verbatim>\<open>SQRL_ERR_MEMORY\<close> returns are not branches of the model;
  \<^item> a region protected by one of the client's mutexes is one atomic step; the increment
    of the request counter, which no mutex protects, is a read and a write with the
    other threads' work in between.
\<close>

subsection \<open>Types of the header\<close>

type_synonym uint8_t = "8 word"
type_synonym uint16_t = "16 word"
type_synonym uint32_t = "32 word"
type_synonym uint64_t = "64 word"

datatype sqrl_error_t =
    SQRL_OK
  | SQRL_ERR_CONNECT
  | SQRL_ERR_HANDSHAKE
  | SQRL_ERR_VERSION_MISMATCH
  | SQRL_ERR_AUTH_FAILED
  | SQRL_ERR_SEND
  | SQRL_ERR_RECV
  | SQRL_ERR_TIMEOUT
  | SQRL_ERR_CLOSED
  | SQRL_ERR_INVALID_ARG
  | SQRL_ERR_MEMORY
  | SQRL_ERR_ENCODE
  | SQRL_ERR_DECODE
  | SQRL_ERR_SERVER
  | SQRL_ERR_NOT_FOUND

datatype sqrl_encoding_t = SQRL_ENCODING_MSGPACK | SQRL_ENCODING_JSON

fun encoding_code :: "sqrl_encoding_t \<Rightarrow> uint8_t" where
  "encoding_code SQRL_ENCODING_MSGPACK = 0x01"
| "encoding_code SQRL_ENCODING_JSON = 0x02"

definition SQRL_PROTOCOL_VERSION :: uint8_t where
  "SQRL_PROTOCOL_VERSION = 0x01"

definition SQRL_MAX_MESSAGE_SIZE :: uint32_t where
  "SQRL_MAX_MESSAGE_SIZE = 16 * 1024 * 1024"

definition MSG_TYPE_REQUEST :: uint8_t where
  "MSG_TYPE_REQUEST = 0x01"

definition HANDSHAKE_SUCCESS :: uint8_t where
  "HANDSHAKE_SUCCESS = 0x00"

definition HANDSHAKE_VERSION_MISMATCH :: uint8_t where
  "HANDSHAKE_VERSION_MISMATCH = 0x01"

definition HANDSHAKE_AUTH_FAILED :: uint8_t where
  "HANDSHAKE_AUTH_FAILED = 0x02"

record sqrl_options_t =
  auth_token :: "string option"
  use_msgpack :: bool
  connect_timeout_ms :: int
  opt_request_timeout_ms :: int

subsection \<open>Characters, bytes and C strings\<close>

definition byte_of_char :: "char \<Rightarrow> uint8_t" where
  "byte_of_char c = of_nat (of_char c)"

definition char_of_byte :: "uint8_t \<Rightarrow> char" where
  "char_of_byte b = char_of (unat b)"

definition cstr :: "string \<Rightarrow> string" where
  "cstr s = takeWhile (\<lambda>c. c \<noteq> CHR 0x00) s"

definition strlen :: "string \<Rightarrow> nat" where
  "strlen s = length (cstr s)"

definition MAGIC :: "uint8_t list" where
  "MAGIC = map byte_of_char ''SQRL''"

subsection \<open>Utility functions\<close>

definition read_u32_be :: "uint8_t list \<Rightarrow> uint32_t" where
  "read_u32_be buf =
     push_bit 24 (ucast (buf ! 0)) OR push_bit 16 (ucast (buf ! 1)) OR
     push_bit 8 (ucast (buf ! 2)) OR ucast (buf ! 3)"

definition write_u32_be :: "uint32_t \<Rightarrow> uint8_t list" where
  "write_u32_be val =
     [ucast (drop_bit 24 val AND 0xFF), ucast (drop_bit 16 val AND 0xFF),
      ucast (drop_bit 8 val AND 0xFF), ucast (val AND 0xFF)]"

definition write_u16_be :: "uint16_t \<Rightarrow> uint8_t list" where
  "write_u16_be val = [ucast (drop_bit 8 val AND 0xFF), ucast (val AND 0xFF)]"

text \<open>The conversion \<^verbatim>\<open>%02x\<close> of \<^verbatim>\<open>sprintf\<close>, applied to a byte.\<close>

definition hex_digit :: "nat \<Rightarrow> char" where
  "hex_digit n = ''0123456789abcdef'' ! n"

definition fmt_02x :: "uint8_t \<Rightarrow> string" where
  "fmt_02x b = [hex_digit (unat b div 16), hex_digit (unat b mod 16)]"

definition uuid_to_string :: "uint8_t list \<Rightarrow> string" where
  "uuid_to_string bytes =
     fmt_02x (bytes ! 0) @ fmt_02x (bytes ! 1) @ fmt_02x (bytes ! 2) @ fmt_02x (bytes ! 3) @ ''-'' @
     fmt_02x (bytes ! 4) @ fmt_02x (bytes ! 5) @ ''-'' @
     fmt_02x (bytes ! 6) @ fmt_02x (bytes ! 7) @ ''-'' @
     fmt_02x (bytes ! 8) @ fmt_02x (bytes ! 9) @ ''-'' @
     fmt_02x (bytes ! 10) @ fmt_02x (bytes ! 11) @ fmt_02x (bytes ! 12) @
     fmt_02x (bytes ! 13) @ fmt_02x (bytes ! 14) @ fmt_02x (bytes ! 15)"

subsection \<open>Network I/O\<close>

text \<open>
  What one call of \<^verbatim>\<open>send\<close>, \<^verbatim>\<open>select\<close> and \<^verbatim>\<open>recv\<close> is going to return. \<open>SendAccepts k\<close>:
  the kernel takes at most \<open>k\<close> of the bytes offered. \<open>RecvData bs\<close>: the bytes \<open>bs\<close> are
  there to be read; a \<^verbatim>\<open>recv\<close> that asks for fewer leaves the rest for the next call.
  \<open>RecvClosed\<close>: the peer has closed, \<^verbatim>\<open>recv\<close> returns 0 from now on.
\<close>

datatype send_result = SendAccepts nat | SendEINTR | SendError
datatype select_result = SelReady | SelTimeout | SelEINTR | SelError
datatype recv_result = RecvData "uint8_t list" | RecvClosed | RecvEINTR | RecvError

record socket =
  send_script :: "send_result list"
  select_script :: "select_result list"
  recv_script :: "recv_result list"
  sent :: "uint8_t list"

text \<open>
  \<^verbatim>\<open>send_all\<close>: \<open>p\<close> is the part of the buffer still to be written, \<open>wire\<close> what the
  socket has taken. The result is \<^verbatim>\<open>len\<close> or \<^verbatim>\<open>-1\<close>.
\<close>

fun send_all_loop ::
  "send_result list \<Rightarrow> uint8_t list \<Rightarrow> uint8_t list \<Rightarrow> (bool \<times> send_result list \<times> uint8_t list) option"
where
  "send_all_loop ss p wire =
     (if length p > 0 then
        (case ss of
           [] \<Rightarrow> None
         | SendEINTR # ss' \<Rightarrow> send_all_loop ss' p wire
         | SendError # ss' \<Rightarrow> Some (False, ss', wire)
         | SendAccepts k # ss' \<Rightarrow>
             (let n = min k (length p) in send_all_loop ss' (drop n p) (wire @ take n p)))
      else Some (True, ss, wire))"

definition send_all :: "socket \<Rightarrow> uint8_t list \<Rightarrow> (int \<times> socket) option" where
  "send_all sock buf =
     (case send_all_loop (send_script sock) buf (sent sock) of
        None \<Rightarrow> None
      | Some (ok, ss, wire) \<Rightarrow>
          Some (if ok then int (length buf) else - 1, sock\<lparr>send_script := ss, sent := wire\<rparr>))"

text \<open>
  \<^verbatim>\<open>recv_all\<close>: \<open>remaining\<close> bytes are still wanted, \<open>buf\<close> holds those read so far.
  With a positive timeout every \<^verbatim>\<open>recv\<close> is preceded by a \<^verbatim>\<open>select\<close>.
\<close>

fun select_call :: "int \<Rightarrow> select_result list \<Rightarrow> (select_result \<times> select_result list) option" where
  "select_call timeout_ms [] = (if timeout_ms > 0 then None else Some (SelReady, []))"
| "select_call timeout_ms (s # sel) =
     (if timeout_ms > 0 then Some (s, sel) else Some (SelReady, s # sel))"

lemma select_call_length [termination_simp]:
  "select_call timeout_ms sel = Some (s, sel') \<Longrightarrow> length sel' \<le> length sel"
  by (cases sel) (auto split: if_splits)

lemma select_call_EINTR [termination_simp]:
  "select_call timeout_ms sel = Some (SelEINTR, sel') \<Longrightarrow> length sel' < length sel"
  by (cases sel) (auto split: if_splits)

function recv_all_loop ::
  "int \<Rightarrow> select_result list \<Rightarrow> recv_result list \<Rightarrow> nat \<Rightarrow> uint8_t list \<Rightarrow>
   (bool \<times> uint8_t list \<times> select_result list \<times> recv_result list) option"
where
  "recv_all_loop timeout_ms sel rcv remaining buf =
     (if remaining > 0 then
        (case select_call timeout_ms sel of
           None \<Rightarrow> None
         | Some (SelEINTR, sel') \<Rightarrow> recv_all_loop timeout_ms sel' rcv remaining buf
         | Some (SelError, sel') \<Rightarrow> Some (False, buf, sel', rcv)
         | Some (SelTimeout, sel') \<Rightarrow> Some (False, buf, sel', rcv)
         | Some (SelReady, sel') \<Rightarrow>
             (case rcv of
                [] \<Rightarrow> None
              | RecvEINTR # rcv' \<Rightarrow> recv_all_loop timeout_ms sel' rcv' remaining buf
              | RecvError # rcv' \<Rightarrow> Some (False, buf, sel', rcv')
              | RecvClosed # rcv' \<Rightarrow> Some (False, buf, sel', rcv)
              | RecvData bs # rcv' \<Rightarrow>
                  (let n = min remaining (length bs) in
                   if n = 0 then Some (False, buf, sel', rcv')
                   else recv_all_loop timeout_ms sel'
                          (if n < length bs then RecvData (drop n bs) # rcv' else rcv')
                          (remaining - n) (buf @ take n bs))))
      else Some (True, buf, sel, rcv))"
  by pat_completeness auto
termination
proof (relation "measure (\<lambda>(t, sel, rcv, remaining, buf). remaining + length sel + length rcv)")
  show "wf (measure (\<lambda>(t, sel, rcv, remaining, buf). remaining + length sel + length rcv))"
    by simp
next
  fix timeout_ms :: int and sel rcv remaining and buf :: "uint8_t list" and x2 x1 sel'
  assume "select_call timeout_ms sel = Some x2" "(x1, sel') = x2" "x1 = SelEINTR"
  then have "length sel' < length sel" by (auto dest: select_call_EINTR)
  then show "((timeout_ms, sel', rcv, remaining, buf), timeout_ms, sel, rcv, remaining, buf)
        \<in> measure (\<lambda>(t, sel, rcv, remaining, buf). remaining + length sel + length rcv)"
    by simp
next
  fix timeout_ms :: int and sel rcv remaining and buf :: "uint8_t list" and x2 x1 sel' r rcv'
  assume "select_call timeout_ms sel = Some x2" "(x1, sel') = x2" "rcv = r # rcv'"
  then have "length sel' \<le> length sel" by (auto dest: select_call_length)
  with \<open>rcv = r # rcv'\<close>
  show "((timeout_ms, sel', rcv', remaining, buf), timeout_ms, sel, rcv, remaining, buf)
        \<in> measure (\<lambda>(t, sel, rcv, remaining, buf). remaining + length sel + length rcv)"
    by simp
next
  fix timeout_ms :: int and sel rcv remaining and buf :: "uint8_t list" and x2 x1 sel' r rcv' bs n
  assume "0 < remaining" "select_call timeout_ms sel = Some x2" "(x1, sel') = x2"
    "rcv = r # rcv'" "r = RecvData bs" "n = min remaining (length bs)" "n \<noteq> 0"
  then have "length sel' \<le> length sel" by (auto dest: select_call_length)
  with \<open>rcv = r # rcv'\<close> \<open>n = min remaining (length bs)\<close> \<open>n \<noteq> 0\<close> \<open>0 < remaining\<close>
  show "((timeout_ms, sel', if n < length bs then RecvData (drop n bs) # rcv' else rcv',
          remaining - n, buf @ take n bs), timeout_ms, sel, rcv, remaining, buf)
        \<in> measure (\<lambda>(t, sel, rcv, remaining, buf). remaining + length sel + length rcv)"
    by (auto simp: min_def split: if_splits)
qed

declare send_all_loop.simps [simp del]
declare recv_all_loop.simps [simp del]

text \<open>The size of a script of \<^verbatim>\<open>recv\<close> results: what a reader can still consume of it.\<close>

fun script_size :: "recv_result list \<Rightarrow> nat" where
  "script_size [] = 0"
| "script_size (RecvData bs # rs) = Suc (length bs + script_size rs)"
| "script_size (r # rs) = Suc (script_size rs)"

text \<open>The bytes that a script of \<^verbatim>\<open>recv\<close> results holds, in the order of their arrival.\<close>

fun incoming :: "recv_result list \<Rightarrow> uint8_t list" where
  "incoming [] = []"
| "incoming (RecvData bs # rs) = bs @ incoming rs"
| "incoming (r # rs) = incoming rs"

lemma send_all_loop_wire:
  "send_all_loop ss p wire = Some (True, ss', wire') \<Longrightarrow> wire' = wire @ p"
proof (induction ss p wire rule: send_all_loop.induct)
  case (1 ss p wire)
  from "1.prems" have "send_all_loop ss p wire = Some (True, ss', wire')" .
  then show ?case
    using "1.IH"
    apply (subst (asm) send_all_loop.simps)
    apply (auto split: if_splits list.splits send_result.splits simp: Let_def)
    done
qed

lemma recv_all_loop_ok:
  "recv_all_loop t sel rcv remaining buf = Some (True, buf', sel', rcv') \<Longrightarrow>
   buf' = buf @ take remaining (incoming rcv) \<and> incoming rcv' = drop remaining (incoming rcv) \<and>
   remaining \<le> length (incoming rcv) \<and> script_size rcv' + remaining \<le> script_size rcv"
proof (induction t sel rcv remaining buf rule: recv_all_loop.induct)
  case (1 t sel rcv remaining buf)
  note unfold = recv_all_loop.simps [of t sel rcv remaining buf]
  show ?case
  proof (cases "remaining > 0")
    case False
    with "1.prems" unfold show ?thesis by simp
  next
    case pos: True
    show ?thesis
    proof (cases "select_call t sel")
      case None
      with "1.prems" unfold pos show ?thesis by simp
    next
      case (Some a)
      obtain s sel1 where a: "a = (s, sel1)" by (cases a)
      show ?thesis
      proof (cases s)
        case SelEINTR
        with "1.prems" unfold pos Some a have "recv_all_loop t sel1 rcv remaining buf = Some (True, buf', sel', rcv')" by simp
        with "1.IH"(3) [OF pos Some a [symmetric] SelEINTR] show ?thesis by simp
      next
        case SelError
        with "1.prems" unfold pos Some a show ?thesis by simp
      next
        case SelTimeout
        with "1.prems" unfold pos Some a show ?thesis by simp
      next
        case SelReady
        note rdy = this
        show ?thesis
        proof (cases rcv)
          case Nil
          with "1.prems" unfold pos Some a rdy show ?thesis by simp
        next
          case (Cons r rcv1)
          show ?thesis
          proof (cases r)
            case RecvEINTR
            with "1.prems" unfold pos Some a rdy Cons have "recv_all_loop t sel1 rcv1 remaining buf = Some (True, buf', sel', rcv')" by simp
            with "1.IH"(2) [OF pos Some a [symmetric] rdy Cons RecvEINTR] Cons RecvEINTR show ?thesis by simp
          next
            case RecvError
            with "1.prems" unfold pos Some a rdy Cons show ?thesis by simp
          next
            case RecvClosed
            with "1.prems" unfold pos Some a rdy Cons show ?thesis by simp
          next
            case (RecvData bs)
            define n where "n = min remaining (length bs)"
            show ?thesis
            proof (cases "n = 0")
              case True
              with pos n_def have "bs = []" by (auto simp: min_def split: if_splits)
              with "1.prems" unfold pos Some a rdy Cons RecvData show ?thesis
                by (simp add: Let_def)
            next
              case False
              define rcv2 where "rcv2 = (if n < length bs then RecvData (drop n bs) # rcv1 else rcv1)"
              from "1.prems" unfold pos Some a rdy Cons RecvData n_def False rcv2_def
              have rec: "recv_all_loop t sel1 rcv2 (remaining - n) (buf @ take n bs) = Some (True, buf', sel', rcv')"
                by (simp add: Let_def)
              have "buf' = (buf @ take n bs) @ take (remaining - n) (incoming rcv2) \<and>
                    incoming rcv' = drop (remaining - n) (incoming rcv2) \<and>
                    remaining - n \<le> length (incoming rcv2) \<and>
                    script_size rcv' + (remaining - n) \<le> script_size rcv2"
                using "1.IH"(1) [OF pos Some a [symmetric] rdy Cons RecvData n_def False] rec
                by (simp add: rcv2_def)
              then show ?thesis
                using Cons RecvData n_def rcv2_def
                by (auto simp: min_def split: if_splits)
            qed
          qed
        qed
      qed
    qed
  qed
qed

definition recv_all :: "socket \<Rightarrow> nat \<Rightarrow> int \<Rightarrow> ((int \<times> uint8_t list) \<times> socket) option" where
  "recv_all sock len timeout_ms =
     (case recv_all_loop timeout_ms (select_script sock) (recv_script sock) len [] of
        None \<Rightarrow> None
      | Some (ok, buf, sel, rcv) \<Rightarrow>
          Some ((if ok then int len else - 1, buf), sock\<lparr>select_script := sel, recv_script := rcv\<rparr>))"

subsection \<open>Internal structures\<close>

text \<open>
  A node of the pending list is a \<^verbatim>\<open>pending_request_t\<close> together with its address:
  \<^verbatim>\<open>send_request\<close> unlinks its node by pointer, not by id. The condition variable and
  the mutex of a node have no fields here: waiting is the function \<open>wait_round\<close> below.
\<close>

record pending_request_t =
  req_id :: string
  req_response :: "string option"
  req_error :: sqrl_error_t
  req_completed :: bool

record subscription_entry_t =
  sub_id :: string
  sub_callback :: nat
  sub_user_data :: nat

record sqrl_client =
  fd :: int
  session_id :: "string option"
  encoding :: "sqrl_encoding_t option"
  connected :: bool
  request_id :: uint64_t
  request_timeout_ms :: int
  reader_running :: bool
  pending_requests :: "(nat \<times> pending_request_t) list"
  subscriptions :: "subscription_entry_t list"

subsection \<open>Protocol implementation\<close>

text \<open>
  The packet \<^verbatim>\<open>pkt\<close> that \<^verbatim>\<open>do_handshake\<close> builds, and the timeout it passes to
  \<^verbatim>\<open>recv_all\<close>. The token length is cast to \<^verbatim>\<open>uint16_t\<close>; the token is written whole.
\<close>

definition handshake_packet :: "sqrl_options_t option \<Rightarrow> uint8_t list" where
  "handshake_packet opts =
     (let token = (case opts of
                     None \<Rightarrow> []
                   | Some opt \<Rightarrow> (case auth_token opt of None \<Rightarrow> [] | Some t \<Rightarrow> cstr t));
          token_len = length token;
          flags0 = (case opts of
                      None \<Rightarrow> (0x01 :: uint8_t)
                    | Some opt \<Rightarrow> if use_msgpack opt then 0x01 else 0x00);
          flags = flags0 OR 0x02
      in MAGIC @ [SQRL_PROTOCOL_VERSION, flags] @ write_u16_be (of_nat token_len) @
         map byte_of_char token)"

definition handshake_timeout :: "sqrl_options_t option \<Rightarrow> int" where
  "handshake_timeout opts = (case opts of None \<Rightarrow> 5000 | Some opt \<Rightarrow> connect_timeout_ms opt)"

definition do_handshake ::
  "sqrl_client \<Rightarrow> sqrl_options_t option \<Rightarrow> socket \<Rightarrow> (sqrl_error_t \<times> sqrl_client \<times> socket) option"
where
  "do_handshake client opts sock =
     (case send_all sock (handshake_packet opts) of
        None \<Rightarrow> None
      | Some (n, sock1) \<Rightarrow>
          if n < 0 then Some (SQRL_ERR_SEND, client, sock1)
          else
            (case recv_all sock1 19 (handshake_timeout opts) of
               None \<Rightarrow> None
             | Some ((r, resp), sock2) \<Rightarrow>
                 if r < 0 then Some (SQRL_ERR_RECV, client, sock2)
                 else
                   (let status = resp ! 0; resp_flags = resp ! 2 in
                    if status = HANDSHAKE_VERSION_MISMATCH then
                      Some (SQRL_ERR_VERSION_MISMATCH, client, sock2)
                    else if status = HANDSHAKE_AUTH_FAILED then
                      Some (SQRL_ERR_AUTH_FAILED, client, sock2)
                    else if status \<noteq> HANDSHAKE_SUCCESS then
                      Some (SQRL_ERR_HANDSHAKE, client, sock2)
                    else
                      Some (SQRL_OK,
                            client\<lparr>session_id := Some (uuid_to_string (drop 3 resp)),
                                   encoding := Some (if resp_flags AND 0x01 \<noteq> 0
                                                     then SQRL_ENCODING_MSGPACK
                                                     else SQRL_ENCODING_JSON)\<rparr>,
                            sock2))))"

text \<open>The buffer \<^verbatim>\<open>frame\<close> that \<^verbatim>\<open>send_frame\<close> builds and hands to \<^verbatim>\<open>send_all\<close>.\<close>

definition send_frame_buffer :: "string \<Rightarrow> uint8_t list" where
  "send_frame_buffer json =
     (let payload_len = strlen json;
          length32 = (of_nat (payload_len + 2) :: uint32_t)
      in write_u32_be length32 @ [MSG_TYPE_REQUEST, encoding_code SQRL_ENCODING_JSON] @
         map byte_of_char (take payload_len json))"

definition send_frame :: "socket \<Rightarrow> string \<Rightarrow> (sqrl_error_t \<times> socket) option" where
  "send_frame sock json =
     (case send_all sock (send_frame_buffer json) of
        None \<Rightarrow> None
      | Some (n, sock') \<Rightarrow> Some (if n < 0 then SQRL_ERR_SEND else SQRL_OK, sock'))"

text \<open>
  \<^verbatim>\<open>recv_frame\<close> yields the error, or the message type and the payload buffer without
  the NUL that the C code appends to it.
\<close>

definition recv_frame ::
  "socket \<Rightarrow> ((sqrl_error_t + uint8_t \<times> uint8_t list) \<times> socket) option"
where
  "recv_frame sock =
     (case recv_all sock 6 0 of
        None \<Rightarrow> None
      | Some ((r, header), sock1) \<Rightarrow>
          if r < 0 then Some (Inl SQRL_ERR_RECV, sock1)
          else
            (let length32 = read_u32_be header; msg_type = header ! 4 in
             if length32 < 2 \<or> length32 > SQRL_MAX_MESSAGE_SIZE then Some (Inl SQRL_ERR_DECODE, sock1)
             else
               (let payload_len = length32 - 2 in
                case recv_all sock1 (unat payload_len) 0 of
                  None \<Rightarrow> None
                | Some ((r2, payload), sock2) \<Rightarrow>
                    if r2 < 0 then Some (Inl SQRL_ERR_RECV, sock2)
                    else Some (Inr (msg_type, payload), sock2))))"

subsection \<open>Big-endian fields\<close>

text \<open>The number that a string of bytes denotes when read big-endian.\<close>

definition be_value :: "uint8_t list \<Rightarrow> nat" where
  "be_value bs = foldl (\<lambda>acc b. acc * 256 + unat b) 0 bs"

lemma low_byte: "unat (ucast ((w :: uint32_t) AND 0xFF) :: uint8_t) = unat w mod 256"
proof -
  have "(0xFF :: uint32_t) = mask 8" by (simp add: mask_eq_exp_minus_1)
  then have "w AND 0xFF = take_bit 8 w" by (simp add: take_bit_eq_mask)
  then show ?thesis
    by (simp add: unsigned_ucast_eq unsigned_take_bit_eq take_bit_eq_mod unat_mod_distrib)
qed

lemma split_be32:
  fixes n :: nat
  assumes "n < 2 ^ 32"
  shows "((n div 2 ^ 24 mod 256 * 256 + n div 2 ^ 16 mod 256) * 256 + n div 2 ^ 8 mod 256) * 256 +
         n mod 256 = n"
proof -
  define q1 where "q1 = n div 256"
  define q2 where "q2 = q1 div 256"
  define q3 where "q3 = q2 div 256"
  have e1: "n div 2 ^ 8 = q1" by (simp add: q1_def)
  have e2: "n div 2 ^ 16 = q2" by (simp add: q2_def q1_def div_mult2_eq)
  have e3: "n div 2 ^ 24 = q3" by (simp add: q3_def q2_def q1_def div_mult2_eq)
  have "q3 < 256" using assms unfolding e3 [symmetric] by (simp add: less_mult_imp_div_less)
  then have m3: "q3 mod 256 = q3" by simp
  have d1: "q1 * 256 + n mod 256 = n" unfolding q1_def by simp
  have d2: "q2 * 256 + q1 mod 256 = q1" unfolding q2_def by simp
  have d3: "q3 * 256 + q2 mod 256 = q2" unfolding q3_def by simp
  show ?thesis unfolding e1 e2 e3 m3 d3 d2 d1 ..
qed

lemma be_value_write_u32_be: "be_value (write_u32_be v) = unat v"
proof -
  have lt: "unat v < 2 ^ 32" using unsigned_less [of v] by simp
  have "be_value (write_u32_be v) =
        ((unat v div 2 ^ 24 mod 256 * 256 + unat v div 2 ^ 16 mod 256) * 256 +
          unat v div 2 ^ 8 mod 256) * 256 + unat v mod 256"
    by (simp add: be_value_def write_u32_be_def low_byte unat_drop_bit_eq drop_bit_eq_div unat_div_distrib)
  also have "\<dots> = unat v" using lt by (rule split_be32)
  finally show ?thesis .
qed

lemma or_plus_nat:
  fixes x y :: nat
  assumes "x < 2 ^ k"
  shows "push_bit k y OR x = y * 2 ^ k + x"
proof -
  have x: "take_bit k x = x" using assms by (simp add: take_bit_nat_eq_self)
  have "push_bit k y AND take_bit k x = 0"
    by (rule bit_eqI) (auto simp: bit_simps)
  then have "push_bit k y + x = push_bit k y OR x"
    unfolding x by (rule disjunctive_add_eq_or)
  then show ?thesis by (simp add: push_bit_eq_mult)
qed

lemma unat_push_ucast:
  fixes a :: uint8_t
  assumes "k \<le> 24"
  shows "unat (push_bit k (ucast a :: uint32_t)) = unat a * 2 ^ k"
proof -
  have "unat a < 2 ^ 8" using unsigned_less [of a] by simp
  then have "unat a * 2 ^ k < 2 ^ 8 * 2 ^ k" by simp
  also have "\<dots> = 2 ^ (8 + k)" by (simp add: power_add)
  also have "\<dots> \<le> (2 :: nat) ^ 32" using assms by (intro power_increasing) auto
  finally have lt: "unat a * 2 ^ k < 2 ^ 32" .
  have "unat a < 2 ^ 32" using \<open>unat a < 2 ^ 8\<close> by simp
  then have ua: "unat (ucast a :: uint32_t) = unat a"
    by (simp add: unsigned_ucast_eq take_bit_nat_eq_self)
  have "unat (push_bit k (ucast a :: uint32_t)) = take_bit 32 (push_bit k (unat (ucast a :: uint32_t)))"
    using unsigned_push_bit_eq [of k "ucast a :: uint32_t", where 'a = nat] by simp
  also have "\<dots> = take_bit 32 (unat a * 2 ^ k)" unfolding ua by (simp add: push_bit_eq_mult)
  also have "\<dots> = unat a * 2 ^ k" using lt by (simp add: take_bit_nat_eq_self)
  finally show ?thesis .
qed

lemma read_u32_be_value:
  "unat (read_u32_be (a # b # c # d # rest)) = be_value [a, b, c, d]"
proof -
  have la: "unat a < 256" and lb: "unat b < 256" and lc: "unat c < 256" and ld: "unat d < 256"
    using unsigned_less [of a] unsigned_less [of b] unsigned_less [of c] unsigned_less [of d]
    by simp_all
  have "unat (read_u32_be (a # b # c # d # rest)) =
        push_bit 24 (unat a) OR (push_bit 16 (unat b) OR (push_bit 8 (unat c) OR unat d))"
    using unat_push_ucast [of 24 a] unat_push_ucast [of 16 b] unat_push_ucast [of 8 c] ld
    by (simp add: read_u32_be_def unsigned_or_eq unsigned_ucast_eq take_bit_nat_eq_self
                  push_bit_eq_mult or.assoc)
  also have "push_bit 8 (unat c) OR unat d = unat c * 2 ^ 8 + unat d"
    using ld by (intro or_plus_nat) simp
  also have "push_bit 16 (unat b) OR (unat c * 2 ^ 8 + unat d) = unat b * 2 ^ 16 + (unat c * 2 ^ 8 + unat d)"
    using lc ld by (intro or_plus_nat) simp
  also have "push_bit 24 (unat a) OR (unat b * 2 ^ 16 + (unat c * 2 ^ 8 + unat d)) =
             unat a * 2 ^ 24 + (unat b * 2 ^ 16 + (unat c * 2 ^ 8 + unat d))"
    using lb lc ld by (intro or_plus_nat) simp
  finally show ?thesis by (simp add: be_value_def)
qed

section \<open>The frame codec\<close>

subsection \<open>Encoding\<close>

lemma strlen_replicate: "c \<noteq> CHR 0x00 \<Longrightarrow> strlen (replicate n c) = n"
  by (simp add: strlen_def cstr_def takeWhile_replicate)

lemma length_send_frame_buffer: "length (send_frame_buffer json) = 6 + strlen json"
  using length_takeWhile_le [of "\<lambda>c. c \<noteq> CHR 0x00" json]
  by (simp add: send_frame_buffer_def write_u32_be_def strlen_def cstr_def Let_def min_def)

lemma take_strlen: "take (strlen json) json = cstr json"
  unfolding strlen_def cstr_def
  by (metis takeWhile_eq_take)

lemma send_all_ok:
  assumes "send_all sock buf = Some (n, sock')" and "\<not> n < 0"
  shows "sent sock' = sent sock @ buf"
  using assms
  by (auto simp: send_all_def split: option.splits if_splits dest: send_all_loop_wire)

text \<open>A socket that takes the bytes written to it, in two pieces and after one interruption.\<close>

definition quiet_socket :: socket where
  "quiet_socket = \<lparr>send_script = [SendAccepts 3, SendEINTR, SendAccepts 64], select_script = [],
                    recv_script = [], sent = []\<rparr>"

text \<open>
  C7, as amended. For every payload of fewer than \<open>2^32 - 2\<close> bytes, the frame that
  \<^verbatim>\<open>send_frame\<close> builds is \<open>6 + len\<close> bytes long: a 4-byte big-endian length field of
  value \<open>2 + len\<close>, the message type byte (always request, 1), the encoding byte (always
  JSON, 2), and the payload bytes; and when \<^verbatim>\<open>send_frame\<close> returns \<^verbatim>\<open>SQRL_OK\<close>, exactly
  this frame has been appended to what the socket has taken.
\<close>

theorem send_frame_layout:
  assumes "strlen json + 2 < 2 ^ 32"
  shows "length (send_frame_buffer json) = 6 + strlen json \<and>
         be_value (take 4 (send_frame_buffer json)) = 2 + strlen json \<and>
         send_frame_buffer json ! 4 = MSG_TYPE_REQUEST \<and>
         send_frame_buffer json ! 5 = encoding_code SQRL_ENCODING_JSON \<and>
         drop 6 (send_frame_buffer json) = map byte_of_char (cstr json) \<and>
         (\<forall>sock sock'. send_frame sock json = Some (SQRL_OK, sock') \<longrightarrow>
            sent sock' = sent sock @ send_frame_buffer json)"
proof -
  let ?v = "of_nat (strlen json + 2) :: uint32_t"
  have "unat ?v = (strlen json + 2) mod 2 ^ LENGTH(32)"
    by (rule unat_of_nat)
  also have "\<dots> = strlen json + 2"
    using assms by simp
  finally have v: "unat ?v = strlen json + 2" .
  have buf: "send_frame_buffer json =
             write_u32_be ?v @ [MSG_TYPE_REQUEST, encoding_code SQRL_ENCODING_JSON] @
             map byte_of_char (cstr json)"
    by (simp add: send_frame_buffer_def Let_def take_strlen)
  have len4: "length (write_u32_be ?v) = 4" by (simp add: write_u32_be_def)
  have "take 4 (send_frame_buffer json) = write_u32_be ?v"
    unfolding buf using len4 by simp
  then have field: "be_value (take 4 (send_frame_buffer json)) = 2 + strlen json"
    using v by (simp add: be_value_write_u32_be)
  have n4: "send_frame_buffer json ! 4 = MSG_TYPE_REQUEST"
    unfolding buf using len4 by (simp add: nth_append)
  have n5: "send_frame_buffer json ! 5 = encoding_code SQRL_ENCODING_JSON"
    unfolding buf using len4 by (simp add: nth_append)
  have d6: "drop 6 (send_frame_buffer json) = map byte_of_char (cstr json)"
    unfolding buf using len4 by simp
  have snd: "\<forall>sock sock'. send_frame sock json = Some (SQRL_OK, sock') \<longrightarrow>
            sent sock' = sent sock @ send_frame_buffer json"
    by (auto simp: send_frame_def split: option.splits if_splits dest: send_all_ok)
  from length_send_frame_buffer field n4 n5 d6 snd show ?thesis by blast
qed

text \<open>The theorem at the payload \<^verbatim>\<open>{}\<close>, written to a socket that takes it in two pieces.\<close>

theorem send_frame_layout_witness:
  "strlen ''{}'' + 2 < 2 ^ 32 \<and>
   send_frame quiet_socket ''{}'' =
     Some (SQRL_OK, quiet_socket\<lparr>send_script := [], sent := [0, 0, 0, 4, 1, 2, 0x7B, 0x7D]\<rparr>) \<and>
   send_frame_buffer ''{}'' = [0, 0, 0, 4, 1, 2, 0x7B, 0x7D] \<and>
   be_value (take 4 (send_frame_buffer ''{}'')) = 2 + strlen ''{}''"
proof -
  have s: "strlen ''{}'' = 2" by (simp add: strlen_def cstr_def)
  have b: "send_frame_buffer ''{}'' = [0, 0, 0, 4, 1, 2, 0x7B, 0x7D]"
    by (simp add: send_frame_buffer_def s write_u32_be_def MSG_TYPE_REQUEST_def byte_of_char_def)
  have f: "send_frame quiet_socket ''{}'' =
     Some (SQRL_OK, quiet_socket\<lparr>send_script := [], sent := [0, 0, 0, 4, 1, 2, 0x7B, 0x7D]\<rparr>)"
    by (simp add: send_frame_def b send_all_def quiet_socket_def send_all_loop.simps)
  have h: "strlen ''{}'' + 2 < 2 ^ 32" by (simp add: s)
  from send_frame_layout [OF h] s b f show ?thesis by simp
qed

text \<open>
  C7 as stated, for every payload, fails where the cast to \<^verbatim>\<open>uint32_t\<close> cuts the length:
  a payload of \<open>2^32 - 2\<close> bytes gets the length field 0.
\<close>

theorem send_frame_length_field_counterexample:
  "be_value (take 4 (send_frame_buffer (replicate (2 ^ 32 - 2) CHR ''a''))) = 0 \<and>
   2 + strlen (replicate (2 ^ 32 - 2) CHR ''a'') = 2 ^ 32 \<and>
   be_value (take 4 (send_frame_buffer (replicate (2 ^ 32 - 2) CHR ''a''))) \<noteq>
     2 + strlen (replicate (2 ^ 32 - 2) CHR ''a'')"
proof -
  have s: "strlen (replicate (2 ^ 32 - 2) CHR ''a'') = 2 ^ 32 - 2"
    by (rule strlen_replicate) simp
  have z: "(of_nat (2 ^ 32 - 2 + 2) :: uint32_t) = 0" by simp
  have "take 4 (send_frame_buffer (replicate (2 ^ 32 - 2) CHR ''a'')) = write_u32_be 0"
    unfolding send_frame_buffer_def Let_def s z by (simp add: write_u32_be_def)
  then show ?thesis using s by (simp add: write_u32_be_def be_value_def)
qed

section \<open>The handshake\<close>

subsection \<open>What the transport delivers\<close>

lemma recv_all_ok:
  assumes "recv_all sock len t = Some ((r, buf), sock')" and "\<not> r < 0"
  shows "buf = take len (incoming (recv_script sock)) \<and> length buf = len \<and>
         incoming (recv_script sock') = drop len (incoming (recv_script sock)) \<and>
         send_script sock' = send_script sock \<and> sent sock' = sent sock \<and> r = int len"
proof -
  from assms obtain sel rcv where
    loop: "recv_all_loop t (select_script sock) (recv_script sock) len [] = Some (True, buf, sel, rcv)"
    and sock': "sock' = sock\<lparr>select_script := sel, recv_script := rcv\<rparr>" and r: "r = int len"
    by (auto simp: recv_all_def split: option.splits if_splits)
  from recv_all_loop_ok [OF loop] sock' r show ?thesis by simp
qed

lemma send_all_recv_script:
  "send_all sock buf = Some (n, sock') \<Longrightarrow> recv_script sock' = recv_script sock \<and> select_script sock' = select_script sock"
  by (auto simp: send_all_def split: option.splits)

subsection \<open>The session id\<close>

text \<open>
  The format of the session id in the words of the specification: the bytes in lowercase
  hexadecimal, two digits each, cut into groups of 8, 4, 4, 4 and 12 digits that are joined
  by dashes. These definitions do not come from the C code; \<^verbatim>\<open>uuid_to_string\<close> is compared
  with them.
\<close>

definition lower_hex_char :: "nat \<Rightarrow> char" where
  "lower_hex_char n =
     (if n < 10 then char_of (of_char CHR ''0'' + n) else char_of (of_char CHR ''a'' + (n - 10)))"

definition lower_hex :: "uint8_t list \<Rightarrow> string" where
  "lower_hex bs = concat (map (\<lambda>b. [lower_hex_char (unat b div 16), lower_hex_char (unat b mod 16)]) bs)"

definition groups_8_4_4_4_12 :: "string \<Rightarrow> string" where
  "groups_8_4_4_4_12 h =
     take 8 h @ ''-'' @ take 4 (drop 8 h) @ ''-'' @ take 4 (drop 12 h) @ ''-'' @
     take 4 (drop 16 h) @ ''-'' @ take 12 (drop 20 h)"

lemma upt_16: "[0..<16] = [0, 1, 2, 3, 4, 5, 6, 7, 8, 9, 10, 11, 12, 13, 14, 15]"
  by (simp add: upt_rec)

lemma hex_digit_lower:
  assumes "n < 16"
  shows "hex_digit n = lower_hex_char n"
proof -
  have "n \<in> set [0..<16]" using assms by simp
  then have "n \<in> {0, 1, 2, 3, 4, 5, 6, 7, 8, 9, 10, 11, 12, 13, 14, 15}"
    unfolding upt_16 by simp
  then show ?thesis
    by (auto simp: hex_digit_def lower_hex_char_def char_of_def bit_Suc_0_iff)
qed

lemma fmt_02x_lower: "fmt_02x b = [lower_hex_char (unat b div 16), lower_hex_char (unat b mod 16)]"
proof -
  have "unat b < 256" using unsigned_less [of b] by simp
  then have "unat b div 16 < 16" by simp
  then show ?thesis by (simp add: fmt_02x_def hex_digit_lower)
qed

lemma uuid_to_string_groups:
  assumes "length bytes = 16"
  shows "uuid_to_string bytes = groups_8_4_4_4_12 (lower_hex bytes)"
proof -
  have "map ((!) bytes) [0..<16] = bytes"
    using assms map_nth [of bytes] by simp
  then have b: "bytes = map ((!) bytes) [0, 1, 2, 3, 4, 5, 6, 7, 8, 9, 10, 11, 12, 13, 14, 15]"
    unfolding upt_16 by simp
  have "groups_8_4_4_4_12 (lower_hex (map ((!) bytes) [0, 1, 2, 3, 4, 5, 6, 7, 8, 9, 10, 11, 12, 13, 14, 15]))
        = uuid_to_string bytes"
    by (simp add: groups_8_4_4_4_12_def lower_hex_def uuid_to_string_def fmt_02x_lower)
  with b show ?thesis by simp
qed

lemma length_lower_hex: "length (lower_hex bs) = 2 * length bs"
  by (induction bs) (simp_all add: lower_hex_def)

lemma length_groups: "length h = 32 \<Longrightarrow> length (groups_8_4_4_4_12 h) = 36"
  by (simp add: groups_8_4_4_4_12_def)

text \<open>
  A client as \<^verbatim>\<open>sqrl_connect\<close> has it before the handshake, and a socket on which the
  server's 19-byte response arrives in two pieces.
\<close>

definition zeroed_client :: sqrl_client where
  "zeroed_client = \<lparr>fd = 3, session_id = None, encoding = None, connected = False,
                     request_id = 0, request_timeout_ms = 30000, reader_running = False,
                     pending_requests = [], subscriptions = []\<rparr>"

definition handshake_socket :: "uint8_t \<Rightarrow> socket" where
  "handshake_socket status =
     \<lparr>send_script = [SendAccepts 100], select_script = [SelReady, SelReady],
      recv_script = [RecvData [status, 1, 2, 0x12, 0x34, 0x56, 0x78, 0x9A, 0xBC],
                     RecvData [0xDE, 0xF0, 1, 2, 3, 4, 5, 6, 7, 8]],
      sent = []\<rparr>"

lemma handshake_packet_None: "handshake_packet None = [0x53, 0x51, 0x52, 0x4C, 1, 3, 0, 0]"
  by (simp add: handshake_packet_def MAGIC_def byte_of_char_def SQRL_PROTOCOL_VERSION_def
                write_u16_be_def)

lemma do_handshake_example:
  "do_handshake zeroed_client None (handshake_socket 0) =
     Some (SQRL_OK,
           zeroed_client\<lparr>session_id := Some ''12345678-9abc-def0-0102-030405060708'',
                          encoding := Some SQRL_ENCODING_JSON\<rparr>,
           \<lparr>send_script = [], select_script = [], recv_script = [],
            sent = [0x53, 0x51, 0x52, 0x4C, 1, 3, 0, 0]\<rparr>)"
  by (simp add: do_handshake_def handshake_packet_None handshake_timeout_def handshake_socket_def
                send_all_def send_all_loop.simps recv_all_def recv_all_loop.simps
                HANDSHAKE_SUCCESS_def HANDSHAKE_VERSION_MISMATCH_def HANDSHAKE_AUTH_FAILED_def
                uuid_to_string_def fmt_02x_def hex_digit_def zeroed_client_def)

text \<open>
  C6. When the handshake succeeds, 19 bytes of response have been read, the status byte is
  0, and the session id of the client is the 16 bytes at offsets 3 to 18 of the response in
  lowercase hexadecimal, in dash-separated groups of 8, 4, 4, 4 and 12 digits: 36 characters.
\<close>

theorem handshake_session_id:
  assumes "do_handshake client opts sock = Some (SQRL_OK, client', sock')"
  shows "length (take 19 (incoming (recv_script sock))) = 19 \<and>
         take 19 (incoming (recv_script sock)) ! 0 = HANDSHAKE_SUCCESS \<and>
         session_id client' =
           Some (groups_8_4_4_4_12 (lower_hex (take 16 (drop 3 (take 19 (incoming (recv_script sock))))))) \<and>
         length (the (session_id client')) = 36"
proof -
  from assms obtain n sock1 r resp where
    snd: "send_all sock (handshake_packet opts) = Some (n, sock1)" and
    rcv: "recv_all sock1 19 (handshake_timeout opts) = Some ((r, resp), sock')" and
    r: "\<not> r < 0" and
    st: "resp ! 0 = HANDSHAKE_SUCCESS" and
    cl: "session_id client' = Some (uuid_to_string (drop 3 resp))"
    by (auto simp: do_handshake_def Let_def split: option.splits if_splits)
  from recv_all_ok [OF rcv r] send_all_recv_script [OF snd]
  have resp: "resp = take 19 (incoming (recv_script sock))"
    by simp
  from recv_all_ok [OF rcv r] have len: "length resp = 19"
    by blast
  have l16: "length (drop 3 resp) = 16" using len by simp
  have t16: "take 16 (drop 3 resp) = drop 3 resp" using l16 by simp
  have sid: "session_id client' = Some (groups_8_4_4_4_12 (lower_hex (take 16 (drop 3 resp))))"
    using cl uuid_to_string_groups [OF l16] t16 by simp
  have "length (groups_8_4_4_4_12 (lower_hex (take 16 (drop 3 resp)))) = 36"
    using l16 t16 by (intro length_groups) (simp add: length_lower_hex)
  with sid st len show ?thesis unfolding resp by simp
qed

text \<open>The theorem at a response whose session id bytes are 12 34 56 78 9a bc de f0 01 .. 08.\<close>

theorem handshake_session_id_witness:
  "do_handshake zeroed_client None (handshake_socket 0) =
     Some (SQRL_OK,
           zeroed_client\<lparr>session_id := Some ''12345678-9abc-def0-0102-030405060708'',
                          encoding := Some SQRL_ENCODING_JSON\<rparr>,
           \<lparr>send_script = [], select_script = [], recv_script = [],
            sent = [0x53, 0x51, 0x52, 0x4C, 1, 3, 0, 0]\<rparr>) \<and>
   groups_8_4_4_4_12 (lower_hex [0x12, 0x34, 0x56, 0x78, 0x9A, 0xBC, 0xDE, 0xF0, 1, 2, 3, 4, 5, 6, 7, 8]) =
     ''12345678-9abc-def0-0102-030405060708''"
proof -
  have "groups_8_4_4_4_12 (lower_hex [0x12, 0x34, 0x56, 0x78, 0x9A, 0xBC, 0xDE, 0xF0, 1, 2, 3, 4, 5, 6, 7, 8]) =
        ''12345678-9abc-def0-0102-030405060708''"
    using handshake_session_id [OF do_handshake_example]
    by (simp add: handshake_socket_def)
  with do_handshake_example show ?thesis by (rule conjI)
qed

subsection \<open>The outcome of the handshake\<close>

lemma send_all_sign: "send_all sock buf = Some (n, sock') \<Longrightarrow> n < 0 \<or> n = int (length buf)"
  by (auto simp: send_all_def split: option.splits if_splits)

lemma recv_all_select_timeout:
  assumes "0 < t" and "0 < len" and "select_script sock = SelTimeout # sel"
  shows "recv_all sock len t = Some ((- 1, []), sock\<lparr>select_script := sel, recv_script := recv_script sock\<rparr>)"
  using assms by (simp add: recv_all_def recv_all_loop.simps)

text \<open>
  C4, as amended. Once the handshake packet has been handed to \<^verbatim>\<open>send_all\<close>: a write error
  fails with \<^verbatim>\<open>SQRL_ERR_SEND\<close>; a failure to read the 19-byte response, a timeout of
  \<^verbatim>\<open>select\<close> among them, fails with \<^verbatim>\<open>SQRL_ERR_RECV\<close>; otherwise status 1 fails with
  \<^verbatim>\<open>SQRL_ERR_VERSION_MISMATCH\<close>, status 2 with \<^verbatim>\<open>SQRL_ERR_AUTH_FAILED\<close>, any other
  non-zero status with \<^verbatim>\<open>SQRL_ERR_HANDSHAKE\<close>, and status 0 succeeds with the session id
  and the encoding that bit 0 of the response flags selects. A failed handshake leaves the
  client as it was.
\<close>

theorem handshake_outcome:
  assumes "send_all sock (handshake_packet opts) = Some (n, sock1)"
  shows "(n < 0 \<longrightarrow> do_handshake client opts sock = Some (SQRL_ERR_SEND, client, sock1)) \<and>
         (\<not> n < 0 \<longrightarrow>
            (\<forall>sel. 0 < handshake_timeout opts \<and> select_script sock1 = SelTimeout # sel \<longrightarrow>
               do_handshake client opts sock =
                 Some (SQRL_ERR_RECV, client, sock1\<lparr>select_script := sel\<rparr>)) \<and>
            (\<forall>r resp sock2. recv_all sock1 19 (handshake_timeout opts) = Some ((r, resp), sock2) \<longrightarrow>
               do_handshake client opts sock =
                 Some (if r < 0 then (SQRL_ERR_RECV, client, sock2)
                       else if resp ! 0 = 1 then (SQRL_ERR_VERSION_MISMATCH, client, sock2)
                       else if resp ! 0 = 2 then (SQRL_ERR_AUTH_FAILED, client, sock2)
                       else if resp ! 0 \<noteq> 0 then (SQRL_ERR_HANDSHAKE, client, sock2)
                       else (SQRL_OK,
                             client\<lparr>session_id := Some (uuid_to_string (drop 3 resp)),
                                    encoding := Some (if bit (resp ! 2) 0 then SQRL_ENCODING_MSGPACK
                                                      else SQRL_ENCODING_JSON)\<rparr>,
                             sock2))))"
proof (intro conjI impI allI)
  assume "n < 0"
  with assms show "do_handshake client opts sock = Some (SQRL_ERR_SEND, client, sock1)"
    by (simp add: do_handshake_def)
next
  fix sel
  assume n: "\<not> n < 0" and t: "0 < handshake_timeout opts \<and> select_script sock1 = SelTimeout # sel"
  then have "recv_all sock1 19 (handshake_timeout opts) =
             Some ((- 1, []), sock1\<lparr>select_script := sel, recv_script := recv_script sock1\<rparr>)"
    by (intro recv_all_select_timeout) simp_all
  with assms n show "do_handshake client opts sock = Some (SQRL_ERR_RECV, client, sock1\<lparr>select_script := sel\<rparr>)"
    by (simp add: do_handshake_def)
next
  fix r resp sock2
  assume n: "\<not> n < 0" and r: "recv_all sock1 19 (handshake_timeout opts) = Some ((r, resp), sock2)"
  have b: "(resp ! 2 AND 1 \<noteq> 0) = bit (resp ! 2) 0"
    by (simp add: and_one_eq bit_0 mod_2_eq_odd)
  from assms n r show "do_handshake client opts sock =
                 Some (if r < 0 then (SQRL_ERR_RECV, client, sock2)
                       else if resp ! 0 = 1 then (SQRL_ERR_VERSION_MISMATCH, client, sock2)
                       else if resp ! 0 = 2 then (SQRL_ERR_AUTH_FAILED, client, sock2)
                       else if resp ! 0 \<noteq> 0 then (SQRL_ERR_HANDSHAKE, client, sock2)
                       else (SQRL_OK,
                             client\<lparr>session_id := Some (uuid_to_string (drop 3 resp)),
                                    encoding := Some (if bit (resp ! 2) 0 then SQRL_ENCODING_MSGPACK
                                                      else SQRL_ENCODING_JSON)\<rparr>,
                             sock2))"
    by (simp add: do_handshake_def Let_def b HANDSHAKE_SUCCESS_def HANDSHAKE_VERSION_MISMATCH_def
                  HANDSHAKE_AUTH_FAILED_def)
qed

lemma handshake_socket_send:
  "send_all (handshake_socket st) (handshake_packet None) =
     Some (8, (handshake_socket st)\<lparr>send_script := [], sent := [0x53, 0x51, 0x52, 0x4C, 1, 3, 0, 0]\<rparr>)"
  by (simp add: handshake_packet_None handshake_socket_def send_all_def send_all_loop.simps)

lemma handshake_socket_recv:
  "recv_all ((handshake_socket st)\<lparr>send_script := [], sent := [0x53, 0x51, 0x52, 0x4C, 1, 3, 0, 0]\<rparr>) 19
            (handshake_timeout None) =
     Some ((19, [st, 1, 2, 0x12, 0x34, 0x56, 0x78, 0x9A, 0xBC, 0xDE, 0xF0, 1, 2, 3, 4, 5, 6, 7, 8]),
           \<lparr>send_script = [], select_script = [], recv_script = [],
            sent = [0x53, 0x51, 0x52, 0x4C, 1, 3, 0, 0]\<rparr>)"
  by (simp add: handshake_timeout_def handshake_socket_def recv_all_def recv_all_loop.simps)

text \<open>
  The theorem at responses with status 1, 2 and 7, at a \<^verbatim>\<open>select\<close> that times out and
  at a \<^verbatim>\<open>send\<close> that fails.
\<close>

theorem handshake_outcome_witness:
  "send_all (handshake_socket 1) (handshake_packet None) =
     Some (8, (handshake_socket 1)\<lparr>send_script := [], sent := [0x53, 0x51, 0x52, 0x4C, 1, 3, 0, 0]\<rparr>) \<and>
   do_handshake zeroed_client None (handshake_socket 1) =
     Some (SQRL_ERR_VERSION_MISMATCH, zeroed_client,
           \<lparr>send_script = [], select_script = [], recv_script = [],
            sent = [0x53, 0x51, 0x52, 0x4C, 1, 3, 0, 0]\<rparr>) \<and>
   do_handshake zeroed_client None (handshake_socket 2) =
     Some (SQRL_ERR_AUTH_FAILED, zeroed_client,
           \<lparr>send_script = [], select_script = [], recv_script = [],
            sent = [0x53, 0x51, 0x52, 0x4C, 1, 3, 0, 0]\<rparr>) \<and>
   do_handshake zeroed_client None (handshake_socket 7) =
     Some (SQRL_ERR_HANDSHAKE, zeroed_client,
           \<lparr>send_script = [], select_script = [], recv_script = [],
            sent = [0x53, 0x51, 0x52, 0x4C, 1, 3, 0, 0]\<rparr>) \<and>
   do_handshake zeroed_client None ((handshake_socket 0)\<lparr>select_script := [SelTimeout]\<rparr>) =
     Some (SQRL_ERR_RECV, zeroed_client,
           (handshake_socket 0)\<lparr>send_script := [], select_script := [],
                                  sent := [0x53, 0x51, 0x52, 0x4C, 1, 3, 0, 0]\<rparr>) \<and>
   do_handshake zeroed_client None ((handshake_socket 0)\<lparr>send_script := [SendError]\<rparr>) =
     Some (SQRL_ERR_SEND, zeroed_client, (handshake_socket 0)\<lparr>send_script := []\<rparr>)"
proof -
  have a: "do_handshake zeroed_client None (handshake_socket 1) =
     Some (SQRL_ERR_VERSION_MISMATCH, zeroed_client,
           \<lparr>send_script = [], select_script = [], recv_script = [],
            sent = [0x53, 0x51, 0x52, 0x4C, 1, 3, 0, 0]\<rparr>)"
    using handshake_outcome [OF handshake_socket_send [of 1], of zeroed_client] handshake_socket_recv [of 1]
    by simp
  have b: "do_handshake zeroed_client None (handshake_socket 2) =
     Some (SQRL_ERR_AUTH_FAILED, zeroed_client,
           \<lparr>send_script = [], select_script = [], recv_script = [],
            sent = [0x53, 0x51, 0x52, 0x4C, 1, 3, 0, 0]\<rparr>)"
    using handshake_outcome [OF handshake_socket_send [of 2], of zeroed_client] handshake_socket_recv [of 2]
    by simp
  have c: "do_handshake zeroed_client None (handshake_socket 7) =
     Some (SQRL_ERR_HANDSHAKE, zeroed_client,
           \<lparr>send_script = [], select_script = [], recv_script = [],
            sent = [0x53, 0x51, 0x52, 0x4C, 1, 3, 0, 0]\<rparr>)"
    using handshake_outcome [OF handshake_socket_send [of 7], of zeroed_client] handshake_socket_recv [of 7]
    by simp
  have s1: "send_all ((handshake_socket 0)\<lparr>select_script := [SelTimeout]\<rparr>) (handshake_packet None) =
     Some (8, (handshake_socket 0)\<lparr>send_script := [], select_script := [SelTimeout],
                                     sent := [0x53, 0x51, 0x52, 0x4C, 1, 3, 0, 0]\<rparr>)"
    by (simp add: handshake_packet_None handshake_socket_def send_all_def send_all_loop.simps)
  have d: "do_handshake zeroed_client None ((handshake_socket 0)\<lparr>select_script := [SelTimeout]\<rparr>) =
     Some (SQRL_ERR_RECV, zeroed_client,
           (handshake_socket 0)\<lparr>send_script := [], select_script := [],
                                  sent := [0x53, 0x51, 0x52, 0x4C, 1, 3, 0, 0]\<rparr>)"
    using handshake_outcome [OF s1, of zeroed_client]
    by (simp add: handshake_timeout_def handshake_socket_def)
  have s2: "send_all ((handshake_socket 0)\<lparr>send_script := [SendError]\<rparr>) (handshake_packet None) =
     Some (- 1, (handshake_socket 0)\<lparr>send_script := []\<rparr>)"
    by (simp add: handshake_packet_None handshake_socket_def send_all_def send_all_loop.simps)
  have e: "do_handshake zeroed_client None ((handshake_socket 0)\<lparr>send_script := [SendError]\<rparr>) =
     Some (SQRL_ERR_SEND, zeroed_client, (handshake_socket 0)\<lparr>send_script := []\<rparr>)"
    using handshake_outcome [OF s2, of zeroed_client] by simp
  from handshake_socket_send [of 1] a b c d e show ?thesis by blast
qed

text \<open>
  C4 as stated fails: a read timeout gives \<^verbatim>\<open>SQRL_ERR_RECV\<close>, not \<^verbatim>\<open>SQRL_ERR_TIMEOUT\<close>;
  a read error gives \<^verbatim>\<open>SQRL_ERR_RECV\<close> and a write error \<^verbatim>\<open>SQRL_ERR_SEND\<close>, not
  \<^verbatim>\<open>SQRL_ERR_HANDSHAKE\<close>.
\<close>

theorem handshake_transport_errors_counterexample:
  "do_handshake zeroed_client None ((handshake_socket 0)\<lparr>select_script := [SelTimeout]\<rparr>) =
     Some (SQRL_ERR_RECV, zeroed_client,
           (handshake_socket 0)\<lparr>send_script := [], select_script := [],
                                  sent := [0x53, 0x51, 0x52, 0x4C, 1, 3, 0, 0]\<rparr>) \<and>
   SQRL_ERR_RECV \<noteq> SQRL_ERR_TIMEOUT \<and>
   do_handshake zeroed_client None ((handshake_socket 0)\<lparr>recv_script := [RecvError]\<rparr>) =
     Some (SQRL_ERR_RECV, zeroed_client,
           (handshake_socket 0)\<lparr>send_script := [], select_script := [SelReady], recv_script := [],
                                  sent := [0x53, 0x51, 0x52, 0x4C, 1, 3, 0, 0]\<rparr>) \<and>
   SQRL_ERR_RECV \<noteq> SQRL_ERR_HANDSHAKE \<and>
   do_handshake zeroed_client None ((handshake_socket 0)\<lparr>send_script := [SendError]\<rparr>) =
     Some (SQRL_ERR_SEND, zeroed_client, (handshake_socket 0)\<lparr>send_script := []\<rparr>) \<and>
   SQRL_ERR_SEND \<noteq> SQRL_ERR_HANDSHAKE"
  by (simp add: do_handshake_def handshake_packet_None handshake_timeout_def handshake_socket_def
                send_all_def send_all_loop.simps recv_all_def recv_all_loop.simps)

section \<open>Decoding a frame\<close>

text \<open>The length that a 6-byte frame header declares: its first four bytes, big-endian.\<close>

definition declared_length :: "uint8_t list \<Rightarrow> nat" where
  "declared_length header = be_value (take 4 header)"

lemma read_u32_be_declared:
  assumes "length header = 6"
  shows "unat (read_u32_be header) = declared_length header"
proof -
  from assms obtain a b c d rest where h: "header = a # b # c # d # rest"
    by (cases header; simp; cases "tl header"; simp; cases "tl (tl header)"; simp;
        cases "tl (tl (tl header))"; simp)
  show ?thesis unfolding h declared_length_def by (simp add: read_u32_be_value)
qed

lemma decode_guard:
  assumes "length header = 6"
  shows "(read_u32_be header < 2 \<or> read_u32_be header > SQRL_MAX_MESSAGE_SIZE) \<longleftrightarrow>
         (declared_length header < 2 \<or> declared_length header > 16 * 1024 * 1024)"
  using read_u32_be_declared [OF assms]
  by (simp add: word_less_nat_alt SQRL_MAX_MESSAGE_SIZE_def)

lemma payload_len:
  assumes "length header = 6" and "\<not> read_u32_be header < 2"
  shows "unat (read_u32_be header - 2) = declared_length header - 2"
proof -
  from assms(2) have "2 \<le> read_u32_be header" by simp
  then have "unat (read_u32_be header - 2) = unat (read_u32_be header) - unat (2 :: uint32_t)"
    by (rule unat_sub)
  then show ?thesis using read_u32_be_declared [OF assms(1)] by simp
qed

text \<open>
  C5, as amended. Once \<^verbatim>\<open>recv_frame\<close> has read the 6 header bytes, which are the next 6
  bytes of the stream, it fails with \<^verbatim>\<open>SQRL_ERR_DECODE\<close> if and only if the declared
  length is below 2 or above 16 MiB, having read nothing more; otherwise, when the
  following read succeeds, it returns as payload exactly the next \<open>length - 2\<close> bytes and
  leaves the stream right behind them.
\<close>

theorem recv_frame_decode:
  assumes "recv_all sock 6 0 = Some ((r, header), sock1)" and "\<not> r < 0"
  shows "header = take 6 (incoming (recv_script sock)) \<and>
         ((\<exists>sock'. recv_frame sock = Some (Inl SQRL_ERR_DECODE, sock')) \<longleftrightarrow>
            declared_length header < 2 \<or> declared_length header > 16 * 1024 * 1024) \<and>
         (declared_length header < 2 \<or> declared_length header > 16 * 1024 * 1024 \<longrightarrow>
            recv_frame sock = Some (Inl SQRL_ERR_DECODE, sock1) \<and>
            incoming (recv_script sock1) = drop 6 (incoming (recv_script sock))) \<and>
         (\<not> (declared_length header < 2 \<or> declared_length header > 16 * 1024 * 1024) \<longrightarrow>
            (\<forall>r2 payload sock2.
               recv_all sock1 (declared_length header - 2) 0 = Some ((r2, payload), sock2) \<and> \<not> r2 < 0 \<longrightarrow>
               recv_frame sock = Some (Inr (header ! 4, payload), sock2) \<and>
               length payload = declared_length header - 2 \<and>
               payload = take (declared_length header - 2) (drop 6 (incoming (recv_script sock))) \<and>
               incoming (recv_script sock2) =
                 drop (6 + (declared_length header - 2)) (incoming (recv_script sock))))"
proof -
  let ?L = "declared_length header"
  let ?bad = "?L < 2 \<or> ?L > 16 * 1024 * 1024"
  from recv_all_ok [OF assms] have
    hdr: "header = take 6 (incoming (recv_script sock))" and len: "length header = 6" and
    rest: "incoming (recv_script sock1) = drop 6 (incoming (recv_script sock))"
    by blast+
  note guard = decode_guard [OF len]
  have bad: "recv_frame sock = Some (Inl SQRL_ERR_DECODE, sock1)" if "?bad"
    using that assms guard by (simp add: recv_frame_def Let_def)
  have good: "recv_frame sock =
              (case recv_all sock1 (?L - 2) 0 of
                 None \<Rightarrow> None
               | Some ((r2, payload), sock2) \<Rightarrow>
                   if r2 < 0 then Some (Inl SQRL_ERR_RECV, sock2)
                   else Some (Inr (header ! 4, payload), sock2))" if "\<not> ?bad"
  proof -
    from that guard have g: "\<not> (read_u32_be header < 2 \<or> read_u32_be header > SQRL_MAX_MESSAGE_SIZE)"
      by simp
    then have "unat (read_u32_be header - 2) = ?L - 2"
      using payload_len [OF len] by simp
    with assms g show ?thesis by (simp add: recv_frame_def Let_def)
  qed
  have iff: "(\<exists>sock'. recv_frame sock = Some (Inl SQRL_ERR_DECODE, sock')) \<longleftrightarrow> ?bad"
  proof
    assume "\<exists>sock'. recv_frame sock = Some (Inl SQRL_ERR_DECODE, sock')"
    then obtain sock' where d: "recv_frame sock = Some (Inl SQRL_ERR_DECODE, sock')" ..
    show "?bad"
    proof (rule ccontr)
      assume "\<not> ?bad"
      from good [OF this] d show False
        by (simp split: option.splits prod.splits if_splits)
    qed
  next
    assume "?bad" then show "\<exists>sock'. recv_frame sock = Some (Inl SQRL_ERR_DECODE, sock')"
      using bad by blast
  qed
  have pay: "recv_frame sock = Some (Inr (header ! 4, payload), sock2) \<and>
             length payload = ?L - 2 \<and>
             payload = take (?L - 2) (drop 6 (incoming (recv_script sock))) \<and>
             incoming (recv_script sock2) = drop (6 + (?L - 2)) (incoming (recv_script sock))"
    if nb: "\<not> ?bad" and rp: "recv_all sock1 (?L - 2) 0 = Some ((r2, payload), sock2) \<and> \<not> r2 < 0"
    for r2 payload sock2
  proof -
    from rp have rp1: "recv_all sock1 (?L - 2) 0 = Some ((r2, payload), sock2)" and rp2: "\<not> r2 < 0"
      by simp_all
    from recv_all_ok [OF rp1 rp2]
    have p1: "length payload = ?L - 2"
      and p2: "payload = take (?L - 2) (incoming (recv_script sock1))"
      and p3: "incoming (recv_script sock2) = drop (?L - 2) (incoming (recv_script sock1))"
      by blast+
    have "payload = take (?L - 2) (drop 6 (incoming (recv_script sock)))"
      using p2 unfolding rest .
    moreover have "incoming (recv_script sock2) = drop (6 + (?L - 2)) (incoming (recv_script sock))"
      using p3 unfolding rest by (simp add: add.commute)
    moreover note p1
    moreover from good [OF nb] rp1 rp2
    have "recv_frame sock = Some (Inr (header ! 4, payload), sock2)" by simp
    ultimately show ?thesis by blast
  qed
  from hdr iff bad rest pay show ?thesis by blast
qed

text \<open>A socket on which the given bytes are there to be read.\<close>

definition frame_socket :: "uint8_t list \<Rightarrow> socket" where
  "frame_socket bytes = \<lparr>send_script = [], select_script = [], recv_script = [RecvData bytes], sent = []\<rparr>"

text \<open>The theorem at a frame of declared length 4 and at one of declared length 1.\<close>

theorem recv_frame_decode_witness:
  "recv_all (frame_socket [0, 0, 0, 4, 2, 2, 0x7B, 0x7D, 9]) 6 0 =
     Some ((6, [0, 0, 0, 4, 2, 2]), frame_socket [0x7B, 0x7D, 9]) \<and>
   declared_length [0, 0, 0, 4, 2, 2] = 4 \<and>
   recv_all (frame_socket [0x7B, 0x7D, 9]) 2 0 = Some ((2, [0x7B, 0x7D]), frame_socket [9]) \<and>
   recv_frame (frame_socket [0, 0, 0, 4, 2, 2, 0x7B, 0x7D, 9]) =
     Some (Inr (2, [0x7B, 0x7D]), frame_socket [9]) \<and>
   recv_all (frame_socket [0, 0, 0, 1, 2, 2, 0x7B]) 6 0 =
     Some ((6, [0, 0, 0, 1, 2, 2]), frame_socket [0x7B]) \<and>
   declared_length [0, 0, 0, 1, 2, 2] = 1 \<and>
   recv_frame (frame_socket [0, 0, 0, 1, 2, 2, 0x7B]) = Some (Inl SQRL_ERR_DECODE, frame_socket [0x7B])"
proof -
  have h: "recv_all (frame_socket [0, 0, 0, 4, 2, 2, 0x7B, 0x7D, 9]) 6 0 =
     Some ((6, [0, 0, 0, 4, 2, 2]), frame_socket [0x7B, 0x7D, 9])"
    by (simp add: frame_socket_def recv_all_def recv_all_loop.simps)
  have l: "declared_length [0, 0, 0, 4, 2, 2] = 4"
    by (simp add: declared_length_def be_value_def)
  have p: "recv_all (frame_socket [0x7B, 0x7D, 9]) 2 0 = Some ((2, [0x7B, 0x7D]), frame_socket [9])"
    by (simp add: frame_socket_def recv_all_def recv_all_loop.simps)
  have f: "recv_frame (frame_socket [0, 0, 0, 4, 2, 2, 0x7B, 0x7D, 9]) =
     Some (Inr (2, [0x7B, 0x7D]), frame_socket [9])"
    using recv_frame_decode [OF h] l p by simp
  have h': "recv_all (frame_socket [0, 0, 0, 1, 2, 2, 0x7B]) 6 0 =
     Some ((6, [0, 0, 0, 1, 2, 2]), frame_socket [0x7B])"
    by (simp add: frame_socket_def recv_all_def recv_all_loop.simps)
  have l': "declared_length [0, 0, 0, 1, 2, 2] = 1"
    by (simp add: declared_length_def be_value_def)
  have f': "recv_frame (frame_socket [0, 0, 0, 1, 2, 2, 0x7B]) = Some (Inl SQRL_ERR_DECODE, frame_socket [0x7B])"
    using recv_frame_decode [OF h'] l' by simp
  from h l p f h' l' f' show ?thesis by blast
qed

text \<open>
  C5 as stated bounds \<open>length - 2\<close> by 16 MiB. The code bounds \<open>length\<close>: a declared
  length of 16 MiB + 1 is rejected although \<open>length - 2\<close> is below 16 MiB.
\<close>

theorem recv_frame_bound_counterexample:
  "recv_frame (frame_socket [1, 0, 0, 1, 2, 2, 0x7B, 0x7D]) =
     Some (Inl SQRL_ERR_DECODE, frame_socket [0x7B, 0x7D]) \<and>
   declared_length [1, 0, 0, 1, 2, 2] = 16 * 1024 * 1024 + 1 \<and>
   \<not> (declared_length [1, 0, 0, 1, 2, 2] < 2 \<or>
      declared_length [1, 0, 0, 1, 2, 2] - 2 > 16 * 1024 * 1024)"
  by (simp add: recv_frame_def frame_socket_def recv_all_def recv_all_loop.simps read_u32_be_def
                SQRL_MAX_MESSAGE_SIZE_def declared_length_def be_value_def)

section \<open>The reader thread\<close>

subsection \<open>Extraction of JSON fields\<close>

text \<open>
  \<^verbatim>\<open>strstr\<close> and \<^verbatim>\<open>strchr\<close> return the rest of the string from the first occurrence on, or
  \<^verbatim>\<open>NULL\<close>. The strings here have no NUL inside: they have passed \<open>cstr\<close>.
\<close>

fun strstr :: "string \<Rightarrow> string \<Rightarrow> string option" where
  "strstr [] needle = (if needle = [] then Some [] else None)"
| "strstr (c # cs) needle =
     (if take (length needle) (c # cs) = needle then Some (c # cs) else strstr cs needle)"

definition strchr :: "string \<Rightarrow> char \<Rightarrow> string option" where
  "strchr s c = (case dropWhile (\<lambda>x. x \<noteq> c) s of [] \<Rightarrow> None | r # rs \<Rightarrow> Some (r # rs))"

abbreviation DQUOTE :: char where
  "DQUOTE \<equiv> CHR 0x22"

text \<open>
  \<^verbatim>\<open>snprintf\<close> into \<^verbatim>\<open>char search[256]\<close> keeps at most 255 characters. The result of
  \<^verbatim>\<open>json_get_string\<close> is the text between \<^verbatim>\<open>start\<close> and the next double quote.
\<close>

definition json_get_string :: "string \<Rightarrow> string \<Rightarrow> string option" where
  "json_get_string json key =
     (let search = take 255 ([DQUOTE] @ key @ [DQUOTE, CHR '':'', DQUOTE]) in
      case strstr json search of
        None \<Rightarrow>
          (let search2 = take 255 ([DQUOTE] @ key @ [DQUOTE, CHR '':'']) in
           case strstr json search2 of
             None \<Rightarrow> None
           | Some found \<Rightarrow>
               (let start = dropWhile (\<lambda>c. c = CHR '' '' \<or> c = CHR 0x09)
                              (drop (length search2) found) in
                case start of
                  [] \<Rightarrow> None
                | c # start' \<Rightarrow>
                    if c = DQUOTE then
                      (case strchr start' DQUOTE of
                         None \<Rightarrow> None
                       | Some end \<Rightarrow> Some (take (length start' - length end) start'))
                    else None))
      | Some found \<Rightarrow>
          (let start = drop (length search) found in
           case strchr start DQUOTE of
             None \<Rightarrow> None
           | Some end \<Rightarrow> Some (take (length start - length end) start)))"

text \<open>
  The brace matching loop of \<^verbatim>\<open>json_get_object\<close>: \<open>rest\<close> is the text from \<^verbatim>\<open>end\<close> on,
  \<open>n\<close> the number of characters between \<^verbatim>\<open>start\<close> and \<^verbatim>\<open>end\<close>. The result is the final
  depth and the final distance.
\<close>

fun match_braces :: "string \<Rightarrow> int \<Rightarrow> nat \<Rightarrow> int \<times> nat" where
  "match_braces [] depth n = (depth, n)"
| "match_braces (c # rest) depth n =
     (if depth > 0 then
        match_braces rest
          (if c = CHR ''{'' then depth + 1 else if c = CHR ''}'' then depth - 1 else depth)
          (n + 1)
      else (depth, n))"

definition json_get_object :: "string \<Rightarrow> string \<Rightarrow> string option" where
  "json_get_object json key =
     (let search = take 255 ([DQUOTE] @ key @ [DQUOTE, CHR '':'']) in
      case strstr json search of
        None \<Rightarrow> None
      | Some found \<Rightarrow>
          (let start = dropWhile (\<lambda>c. c = CHR '' '' \<or> c = CHR 0x09 \<or> c = CHR 0x0A)
                         (drop (length search) found) in
           case start of
             [] \<Rightarrow> None
           | c # rest \<Rightarrow>
               if c \<noteq> CHR ''{'' then None
               else
                 (let (depth, n) = match_braces rest 1 1 in
                  if depth \<noteq> 0 then None else Some (take n start))))"

subsection \<open>Dispatch\<close>

datatype sqrl_change_type_t =
  SQRL_CHANGE_INITIAL | SQRL_CHANGE_INSERT | SQRL_CHANGE_UPDATE | SQRL_CHANGE_DELETE

record sqrl_document_t =
  doc_id :: "string option"
  doc_collection :: "string option"
  doc_data :: "string option"
  doc_created_at :: "string option"
  doc_updated_at :: "string option"

record sqrl_change_event_t =
  ev_type :: sqrl_change_type_t
  ev_document :: "sqrl_document_t option"
  ev_new_doc :: "sqrl_document_t option"
  ev_old_data :: "string option"

text \<open>
  A call of a subscription callback: the function pointer, the event it is given and the
  user data. What the callback does is not part of the library; the reader thread's calls
  are collected in the order in which it makes them.
\<close>

type_synonym callback_call = "nat \<times> sqrl_change_event_t \<times> nat"

definition change_event :: "string \<Rightarrow> sqrl_change_event_t" where
  "change_event json =
     \<lparr>ev_type = (case json_get_string json ''type'' of
                   None \<Rightarrow> SQRL_CHANGE_INITIAL
                 | Some type_str \<Rightarrow>
                     if type_str = ''initial'' then SQRL_CHANGE_INITIAL
                     else if type_str = ''insert'' then SQRL_CHANGE_INSERT
                     else if type_str = ''update'' then SQRL_CHANGE_UPDATE
                     else if type_str = ''delete'' then SQRL_CHANGE_DELETE
                     else SQRL_CHANGE_INITIAL),
      ev_document = None, ev_new_doc = None, ev_old_data = None\<rparr>"

fun dispatch_change_loop :: "subscription_entry_t list \<Rightarrow> string \<Rightarrow> string \<Rightarrow> callback_call list" where
  "dispatch_change_loop [] id' json = []"
| "dispatch_change_loop (entry # entries) id' json =
     (if sub_id entry = id' then [(sub_callback entry, change_event json, sub_user_data entry)]
      else dispatch_change_loop entries id' json)"

definition dispatch_change :: "sqrl_client \<Rightarrow> string \<Rightarrow> string \<Rightarrow> callback_call list" where
  "dispatch_change client id' json = dispatch_change_loop (subscriptions client) id' json"

fun dispatch_response_loop ::
  "(nat \<times> pending_request_t) list \<Rightarrow> string \<Rightarrow> string \<Rightarrow> (nat \<times> pending_request_t) list"
where
  "dispatch_response_loop [] id' json = []"
| "dispatch_response_loop ((a, req) # reqs) id' json =
     (if req_id req = id' then (a, req\<lparr>req_response := Some json, req_completed := True\<rparr>) # reqs
      else (a, req) # dispatch_response_loop reqs id' json)"

definition dispatch_response :: "sqrl_client \<Rightarrow> string \<Rightarrow> string \<Rightarrow> sqrl_client" where
  "dispatch_response client id' json =
     client\<lparr>pending_requests := dispatch_response_loop (pending_requests client) id' json\<rparr>"

subsection \<open>The loop\<close>

text \<open>
  What \<^verbatim>\<open>reader_thread_func\<close> does with a frame that \<^verbatim>\<open>recv_frame\<close> has delivered: the
  client afterwards and the callbacks called.
\<close>

definition reader_dispatch :: "sqrl_client \<Rightarrow> string \<Rightarrow> sqrl_client \<times> callback_call list" where
  "reader_dispatch client json =
     (case json_get_string json ''id'' of
        None \<Rightarrow> (client, [])
      | Some msg_id \<Rightarrow>
          (case json_get_string json ''type'' of
             None \<Rightarrow> (client, [])
           | Some resp_type \<Rightarrow>
               if resp_type = ''change'' then
                 (case json_get_object json ''change'' of
                    None \<Rightarrow> (client, [])
                  | Some change_json \<Rightarrow> (client, dispatch_change client msg_id change_json))
               else (dispatch_response client msg_id json, [])))"

text \<open>
  One pass through the body of the loop. The first component tells whether the loop goes
  on (\<open>True\<close>) or is left by \<^verbatim>\<open>break\<close> (\<open>False\<close>).
\<close>

definition reader_iteration ::
  "sqrl_client \<Rightarrow> socket \<Rightarrow> (bool \<times> sqrl_client \<times> socket \<times> callback_call list) option"
where
  "reader_iteration client sock =
     (case recv_frame sock of
        None \<Rightarrow> None
      | Some (Inl err, sock') \<Rightarrow>
          Some (False, if reader_running client then client\<lparr>connected := False\<rparr> else client,
                sock', [])
      | Some (Inr (msg_type, payload), sock') \<Rightarrow>
          (let (client', calls) = reader_dispatch client (cstr (map char_of_byte payload))
           in Some (True, client', sock', calls)))"

lemma recv_all_consumes:
  assumes "recv_all sock len t = Some ((r, buf), sock')" and "\<not> r < 0"
  shows "script_size (recv_script sock') + len \<le> script_size (recv_script sock)"
proof -
  from assms obtain sel rcv where
    loop: "recv_all_loop t (select_script sock) (recv_script sock) len [] = Some (True, buf, sel, rcv)"
    and sock': "sock' = sock\<lparr>select_script := sel, recv_script := rcv\<rparr>"
    by (auto simp: recv_all_def split: option.splits if_splits)
  from recv_all_loop_ok [OF loop] sock' show ?thesis by simp
qed

lemma recv_frame_consumes:
  assumes "recv_frame sock = Some (Inr x, sock')"
  shows "script_size (recv_script sock') < script_size (recv_script sock)"
proof -
  from assms obtain r header sock1 r2 payload where
    h: "recv_all sock 6 0 = Some ((r, header), sock1)" and r: "\<not> r < 0" and
    p: "recv_all sock1 (unat (read_u32_be header - 2)) 0 = Some ((r2, payload), sock')" and r2: "\<not> r2 < 0"
    by (auto simp: recv_frame_def Let_def split: option.splits if_splits prod.splits)
  from recv_all_consumes [OF h r] recv_all_consumes [OF p r2] show ?thesis by simp
qed

lemma reader_iteration_consumes:
  assumes "reader_iteration client sock = Some (True, client', sock', calls)"
  shows "script_size (recv_script sock') < script_size (recv_script sock)"
proof -
  from assms obtain x where "recv_frame sock = Some (Inr x, sock')"
    by (auto simp: reader_iteration_def Let_def split: option.splits sum.splits prod.splits)
  then show ?thesis by (rule recv_frame_consumes)
qed

text \<open>
  \<^verbatim>\<open>reader_thread_func\<close>, run on its own: no other thread changes the client while it
  runs. It returns the client and the socket as it leaves them and the callbacks it has
  called, in order; \<open>None\<close> when it ends up blocked in \<^verbatim>\<open>recv\<close> for ever.
\<close>

function reader_thread_func ::
  "sqrl_client \<Rightarrow> socket \<Rightarrow> (sqrl_client \<times> socket \<times> callback_call list) option"
where
  "reader_thread_func client sock =
     (if reader_running client then
        (case reader_iteration client sock of
           None \<Rightarrow> None
         | Some (go_on, client', sock', calls) \<Rightarrow>
             if go_on then
               (case reader_thread_func client' sock' of
                  None \<Rightarrow> None
                | Some (client'', sock'', calls') \<Rightarrow> Some (client'', sock'', calls @ calls'))
             else Some (client', sock', calls))
      else Some (client, sock, []))"
  by pat_completeness auto
termination
proof (relation "measure (\<lambda>(client, sock). script_size (recv_script sock))")
  show "wf (measure (\<lambda>(client, sock). script_size (recv_script sock)))" by simp
next
  fix client sock x2 go_on y client' ya sock' calls
  assume "reader_iteration client sock = Some x2" "(go_on, y) = x2" "(client', ya) = y"
    "(sock', calls) = ya" "go_on"
  then have "reader_iteration client sock = Some (True, client', sock', calls)" by simp
  from reader_iteration_consumes [OF this]
  show "((client', sock'), client, sock) \<in> measure (\<lambda>(client, sock). script_size (recv_script sock))"
    by simp
qed

declare reader_thread_func.simps [simp del]

text \<open>
  One pass of the loop that goes on: the condition of the \<^verbatim>\<open>while\<close> holds, the body runs
  without \<^verbatim>\<open>break\<close>, and the loop is back at its condition with the client and the socket
  of \<open>after\<close>. The states that a run of the loop gets to are those that passes lead to from
  its first state, one after another.
\<close>

definition reader_pass :: "sqrl_client \<times> socket \<Rightarrow> sqrl_client \<times> socket \<Rightarrow> bool" where
  "reader_pass before after =
     (reader_running (fst before) \<and>
      (case reader_iteration (fst before) (snd before) of
         None \<Rightarrow> False
       | Some (go_on, client', sock', calls) \<Rightarrow> go_on \<and> after = (client', sock')))"

section \<open>Requests and responses\<close>

subsection \<open>The pending list\<close>

text \<open>
  The removal of the node at address \<open>a\<close> from the pending list, as \<^verbatim>\<open>send_request\<close> does
  it: the head, or the first node whose predecessor points to it.
\<close>

fun unlink_request :: "nat \<Rightarrow> (nat \<times> pending_request_t) list \<Rightarrow> (nat \<times> pending_request_t) list" where
  "unlink_request a [] = []"
| "unlink_request a ((b, req) # reqs) = (if b = a then reqs else (b, req) # unlink_request a reqs)"

text \<open>The node that \<^verbatim>\<open>send_request\<close> creates with \<^verbatim>\<open>calloc\<close> and puts in front of the list.\<close>

definition new_request :: "string \<Rightarrow> pending_request_t" where
  "new_request id' = \<lparr>req_id = id', req_response = None, req_error = SQRL_OK, req_completed = False\<rparr>"

definition register_request :: "sqrl_client \<Rightarrow> nat \<Rightarrow> string \<Rightarrow> sqrl_client" where
  "register_request client a id' =
     client\<lparr>pending_requests := (a, new_request id') # pending_requests client\<rparr>"

definition remove_request :: "sqrl_client \<Rightarrow> nat \<Rightarrow> sqrl_client" where
  "remove_request client a = client\<lparr>pending_requests := unlink_request a (pending_requests client)\<rparr>"

subsection \<open>Waiting for the response\<close>

text \<open>
  What \<^verbatim>\<open>pthread_cond_timedwait\<close> returns: \<open>Woken\<close> stands for 0 and for every error other
  than \<^verbatim>\<open>ETIMEDOUT\<close>.
\<close>

datatype cond_result = Woken | ETIMEDOUT

text \<open>
  One round of the loop \<^verbatim>\<open>while (!req->completed)\<close> and what follows it, up to the label
  \<^verbatim>\<open>cleanup\<close>: \<open>req\<close> is the node as the waiter finds it at the test, \<open>ret\<close> what the wait
  returns if there is one. \<open>None\<close>: the loop goes round again.
\<close>

definition wait_round :: "pending_request_t \<Rightarrow> cond_result \<Rightarrow> (sqrl_error_t \<times> string option) option" where
  "wait_round req ret =
     (if \<not> req_completed req then
        (if ret = ETIMEDOUT then Some (SQRL_ERR_TIMEOUT, None) else None)
      else
        (case req_response req of
           Some response \<Rightarrow> Some (SQRL_OK, Some response)
         | None \<Rightarrow> Some (SQRL_ERR_RECV, None)))"

text \<open>
  The wait of \<^verbatim>\<open>send_request\<close> for the node at address \<open>a\<close>, and the cleanup. While the
  waiter sleeps in \<^verbatim>\<open>pthread_cond_timedwait\<close> the other threads work on the client: each
  round is given as what they do to the client during that sleep, and what the sleep
  returns. \<open>None\<close>: the rounds given do not end the wait, or the node is not in the list.
\<close>

fun send_request_wait ::
  "sqrl_client \<Rightarrow> nat \<Rightarrow> ((sqrl_client \<Rightarrow> sqrl_client) \<times> cond_result) list \<Rightarrow>
   ((sqrl_error_t \<times> string option) \<times> sqrl_client) option"
where
  "send_request_wait client a [] =
     (case map_of (pending_requests client) a of
        None \<Rightarrow> None
      | Some req \<Rightarrow>
          if req_completed req then
            map_option (\<lambda>res. (res, remove_request client a)) (wait_round req Woken)
          else None)"
| "send_request_wait client a ((others, ret) # rounds) =
     (case map_of (pending_requests client) a of
        None \<Rightarrow> None
      | Some req \<Rightarrow>
          if req_completed req then
            map_option (\<lambda>res. (res, remove_request client a)) (wait_round req Woken)
          else
            (case wait_round req ret of
               Some res \<Rightarrow> Some (res, remove_request (others client) a)
             | None \<Rightarrow> send_request_wait (others client) a rounds))"

text \<open>
  \<^verbatim>\<open>send_request\<close>. \<open>a\<close> is the address that \<^verbatim>\<open>calloc\<close> returns for the node, \<open>sending\<close>
  what the other threads do to the client while the frame is written.
\<close>

definition send_request ::
  "sqrl_client \<Rightarrow> socket \<Rightarrow> string \<Rightarrow> string \<Rightarrow> nat \<Rightarrow> (sqrl_client \<Rightarrow> sqrl_client) \<Rightarrow>
   ((sqrl_client \<Rightarrow> sqrl_client) \<times> cond_result) list \<Rightarrow>
   ((sqrl_error_t \<times> string option) \<times> sqrl_client \<times> socket) option"
where
  "send_request client sock json id' a sending rounds =
     (let client1 = register_request client a id' in
      case send_frame sock json of
        None \<Rightarrow> None
      | Some (err, sock') \<Rightarrow>
          if err \<noteq> SQRL_OK then Some ((err, None), remove_request (sending client1) a, sock')
          else
            (case send_request_wait (sending client1) a rounds of
               None \<Rightarrow> None
             | Some (res, client2) \<Rightarrow> Some (res, client2, sock')))"

section \<open>Routing of incoming messages\<close>

subsection \<open>Frames as the server sends them\<close>

text \<open>
  For the examples: a response frame with the given JSON text as payload, two messages, and
  a client with one request outstanding (id 2, node at address 100) and one subscription
  (id 1).
\<close>

lemma select_call_no_timeout: "t \<le> 0 \<Longrightarrow> select_call t sel = Some (SelReady, sel)"
  by (cases sel) simp_all

lemma recv_all_nothing: "recv_all sock 0 t = Some ((0, []), sock)"
  by (simp add: recv_all_def recv_all_loop.simps)

lemma recv_all_chunk:
  assumes "xs \<noteq> []"
  shows "recv_all \<lparr>send_script = ss, select_script = sel, recv_script = RecvData (xs @ rest) # later,
                   sent = w\<rparr> (length xs) 0 =
         Some ((int (length xs), xs),
               \<lparr>send_script = ss, select_script = sel,
                recv_script = (if rest = [] then later else RecvData rest # later), sent = w\<rparr>)"
proof -
  from assms have a: "recv_all_loop 0 sel (RecvData (xs @ rest) # later) (length xs) [] =
             recv_all_loop 0 sel (if rest = [] then later else RecvData rest # later) 0 xs"
    by (subst recv_all_loop.simps) (simp add: Let_def min_def select_call_no_timeout)
  show ?thesis
    by (simp add: recv_all_def a) (simp add: recv_all_loop.simps)
qed

definition response_frame :: "string \<Rightarrow> uint8_t list" where
  "response_frame json =
     write_u32_be (of_nat (length json + 2)) @ [0x02, 0x02] @ map byte_of_char json"

lemma read_write_u32_be: "read_u32_be (write_u32_be v @ rest) = v"
proof -
  obtain a b c d where w: "write_u32_be v = [a, b, c, d]"
    by (simp add: write_u32_be_def)
  have "unat (read_u32_be (write_u32_be v @ rest)) = be_value (write_u32_be v)"
    unfolding w by (simp add: read_u32_be_value)
  then have "unat (read_u32_be (write_u32_be v @ rest)) = unat v"
    by (simp add: be_value_write_u32_be)
  then show ?thesis by (simp add: word_unat_eq_iff)
qed

lemma char_of_byte_of_char: "char_of_byte (byte_of_char c) = c"
proof -
  have "unat (of_nat (of_char c) :: uint8_t) = of_char c"
    by (simp add: unat_of_nat)
  then show ?thesis by (simp add: char_of_byte_def byte_of_char_def)
qed

lemma recv_frame_response_frame:
  assumes "length json + 2 \<le> 16 * 1024 * 1024"
  shows "recv_frame (frame_socket (response_frame json @ rest)) =
         Some (Inr (0x02, map byte_of_char json), if rest = [] then frame_socket [] \<lparr>recv_script := []\<rparr> else frame_socket rest)"
proof -
  let ?v = "of_nat (length json + 2) :: uint32_t"
  let ?hdr = "write_u32_be ?v @ [0x02, 0x02]"
  let ?pay = "map byte_of_char json"
  let ?s1 = "\<lparr>send_script = [], select_script = [],
              recv_script = (if ?pay @ rest = [] then [] else [RecvData (?pay @ rest)]), sent = []\<rparr>"
  have len: "length ?hdr = 6" by (simp add: write_u32_be_def)
  have ne: "?hdr \<noteq> []" by simp
  have sock: "frame_socket (response_frame json @ rest) =
              \<lparr>send_script = [], select_script = [], recv_script = RecvData (?hdr @ (?pay @ rest)) # [],
               sent = []\<rparr>"
    by (simp add: frame_socket_def response_frame_def)
  have h: "recv_all (frame_socket (response_frame json @ rest)) 6 0 = Some ((6, ?hdr), ?s1)"
    unfolding sock using recv_all_chunk [OF ne, of "[]" "[]" "?pay @ rest" "[]" "[]"] len by simp
  have "unat ?v = (length json + 2) mod 2 ^ LENGTH(32)" by (rule unat_of_nat)
  also have "\<dots> = length json + 2" using assms by simp
  finally have v: "unat ?v = length json + 2" .
  have rd: "read_u32_be ?hdr = ?v"
    using read_write_u32_be [of ?v "[0x02, 0x02]"] by simp
  have g: "\<not> (?v < 2 \<or> ?v > SQRL_MAX_MESSAGE_SIZE)"
    using v assms by (simp add: word_less_nat_alt SQRL_MAX_MESSAGE_SIZE_def)
  have "2 \<le> ?v" using v by (simp add: word_le_nat_alt)
  then have "unat (?v - 2) = unat ?v - unat (2 :: uint32_t)" by (rule unat_sub)
  then have pl: "unat (?v - 2) = length json" using v by simp
  have t: "?hdr ! 4 = 0x02" using len by (simp add: nth_append write_u32_be_def)
  have p: "recv_all ?s1 (length json) 0 =
           Some ((int (length json), ?pay), if rest = [] then frame_socket [] \<lparr>recv_script := []\<rparr> else frame_socket rest)"
  proof (cases "json = []")
    case True
    then show ?thesis by (simp add: recv_all_nothing frame_socket_def)
  next
    case False
    then have "?pay \<noteq> []" by simp
    from recv_all_chunk [OF this, of "[]" "[]" rest "[]" "[]"] False
    show ?thesis by (simp add: frame_socket_def)
  qed
  show ?thesis
    unfolding recv_frame_def h
    using rd g pl t p by (simp add: Let_def)
qed

definition pong_3 :: string where
  \<open>pong_3 = ''{"type":"pong","id":"3"}''\<close>

definition no_id_message :: string where
  \<open>no_id_message = ''{"type":"pong","id":3}''\<close>

lemma pong_3_fields:
  "json_get_string pong_3 ''id'' = Some ''3''" "json_get_string pong_3 ''type'' = Some ''pong''"
  by (simp_all add: pong_3_def json_get_string_def strchr_def)

lemma no_id_message_fields:
  "json_get_string no_id_message ''id'' = None"
  by (simp add: no_id_message_def json_get_string_def strchr_def)

definition busy_client :: sqrl_client where
  "busy_client =
     \<lparr>fd = 3, session_id = Some ''12345678-9abc-def0-0102-030405060708'',
      encoding = Some SQRL_ENCODING_JSON, connected = True, request_id = 2,
      request_timeout_ms = 30000, reader_running = True,
      pending_requests = [(100, new_request ''2'')],
      subscriptions = [\<lparr>sub_id = ''1'', sub_callback = 7, sub_user_data = 0\<rparr>]\<rparr>"

lemma cstr_no_nul: "CHR 0x00 \<notin> set s \<Longrightarrow> cstr s = s"
  by (auto simp: cstr_def takeWhile_eq_all_conv)

lemma payload_text: "CHR 0x00 \<notin> set json \<Longrightarrow> cstr (map char_of_byte (map byte_of_char json)) = json"
  by (simp add: char_of_byte_of_char cstr_no_nul o_def)

subsection \<open>Messages that match nothing\<close>

lemma dispatch_response_loop_unknown:
  "id' \<notin> set (map (req_id \<circ> snd) reqs) \<Longrightarrow> dispatch_response_loop reqs id' json = reqs"
  by (induction reqs id' json rule: dispatch_response_loop.induct) auto

lemma dispatch_change_loop_unknown:
  "id' \<notin> set (map sub_id entries) \<Longrightarrow> dispatch_change_loop entries id' json = []"
  by (induction entries id' json rule: dispatch_change_loop.induct) auto

lemma dispatch_response_unknown:
  "id' \<notin> set (map (req_id \<circ> snd) (pending_requests client)) \<Longrightarrow>
   dispatch_response client id' json = client"
  by (simp add: dispatch_response_def dispatch_response_loop_unknown)

lemma reader_iteration_frame:
  assumes "recv_frame sock = Some (Inr (msg_type, payload), sock')"
  shows "reader_iteration client sock =
         Some (True, fst (reader_dispatch client (cstr (map char_of_byte payload))), sock',
               snd (reader_dispatch client (cstr (map char_of_byte payload))))"
  using assms by (simp add: reader_iteration_def Let_def split: prod.splits)

text \<open>
  C3. A message whose id is the id of no pending request and of no subscription is dropped:
  \<^verbatim>\<open>reader_thread_func\<close> leaves the client as it is, pending list and subscription list
  included, and calls no callback; \<^verbatim>\<open>dispatch_response\<close> and \<^verbatim>\<open>dispatch_change\<close> for that
  id do nothing; and the loop goes on. The functions are total and return no error: nothing
  blocks and nothing is raised.
\<close>

theorem unmatched_message_is_dropped:
  assumes "json_get_string json ''id'' = Some msg_id"
    and "msg_id \<notin> set (map (req_id \<circ> snd) (pending_requests client))"
    and "msg_id \<notin> set (map sub_id (subscriptions client))"
  shows "reader_dispatch client json = (client, []) \<and>
         dispatch_response client msg_id json = client \<and>
         dispatch_change client msg_id change_json = [] \<and>
         (\<forall>sock msg_type payload sock'.
            recv_frame sock = Some (Inr (msg_type, payload), sock') \<and>
            cstr (map char_of_byte payload) = json \<longrightarrow>
            reader_iteration client sock = Some (True, client, sock', []))"
proof -
  have r: "dispatch_response client msg_id json = client"
    using assms(2) by (rule dispatch_response_unknown)
  have c: "dispatch_change client msg_id j = []" for j
    using assms(3) by (simp add: dispatch_change_def dispatch_change_loop_unknown)
  have d: "reader_dispatch client json = (client, [])"
    using assms(1) r c by (simp add: reader_dispatch_def split: option.splits)
  have "reader_iteration client sock = Some (True, client, sock', [])"
    if "recv_frame sock = Some (Inr (msg_type, payload), sock') \<and> cstr (map char_of_byte payload) = json"
    for sock msg_type payload sock'
    using that d reader_iteration_frame [of sock msg_type payload sock' client] by simp
  with r c d show ?thesis by blast
qed

text \<open>The theorem at a pong message with id 3, which nobody waits for.\<close>

theorem unmatched_message_is_dropped_witness:
  "json_get_string pong_3 ''id'' = Some ''3'' \<and>
   ''3'' \<notin> set (map (req_id \<circ> snd) (pending_requests busy_client)) \<and>
   ''3'' \<notin> set (map sub_id (subscriptions busy_client)) \<and>
   recv_frame (frame_socket (response_frame pong_3)) =
     Some (Inr (2, map byte_of_char pong_3), frame_socket []\<lparr>recv_script := []\<rparr>) \<and>
   reader_dispatch busy_client pong_3 = (busy_client, []) \<and>
   reader_iteration busy_client (frame_socket (response_frame pong_3)) =
     Some (True, busy_client, frame_socket []\<lparr>recv_script := []\<rparr>, [])"
proof -
  have a: "''3'' \<notin> set (map (req_id \<circ> snd) (pending_requests busy_client))"
    by (simp add: busy_client_def new_request_def)
  have b: "''3'' \<notin> set (map sub_id (subscriptions busy_client))"
    by (simp add: busy_client_def)
  have f: "recv_frame (frame_socket (response_frame pong_3)) =
     Some (Inr (2, map byte_of_char pong_3), frame_socket []\<lparr>recv_script := []\<rparr>)"
    using recv_frame_response_frame [of pong_3 "[]"] by (simp add: pong_3_def)
  have t: "cstr (map char_of_byte (map byte_of_char pong_3)) = pong_3"
    by (rule payload_text) (simp add: pong_3_def)
  note w = unmatched_message_is_dropped [OF pong_3_fields(1) a b]
  from w have d: "reader_dispatch busy_client pong_3 = (busy_client, [])" by blast
  from w f t have i: "reader_iteration busy_client (frame_socket (response_frame pong_3)) =
     Some (True, busy_client, frame_socket []\<lparr>recv_script := []\<rparr>, [])" by blast
  from pong_3_fields(1) a b f d i show ?thesis by blast
qed

text \<open>
  C9. A frame that has been decoded and whose payload lacks an extractable \<^verbatim>\<open>id\<close> string or
  an extractable \<^verbatim>\<open>type\<close> string is discarded: the client is unchanged, so no request is
  completed, no callback is called, and the loop goes on with the next frame.
\<close>

theorem frame_without_id_or_type_is_discarded:
  assumes "recv_frame sock = Some (Inr (msg_type, payload), sock')"
    and "json_get_string (cstr (map char_of_byte payload)) ''id'' = None \<or>
         json_get_string (cstr (map char_of_byte payload)) ''type'' = None"
  shows "reader_iteration client sock = Some (True, client, sock', []) \<and>
         (reader_running client \<longrightarrow> reader_thread_func client sock = reader_thread_func client sock')"
proof -
  have d: "reader_dispatch client (cstr (map char_of_byte payload)) = (client, [])"
    using assms(2) by (auto simp: reader_dispatch_def split: option.splits)
  have i: "reader_iteration client sock = Some (True, client, sock', [])"
    using reader_iteration_frame [OF assms(1), of client] d by simp
  have "reader_thread_func client sock = reader_thread_func client sock'" if "reader_running client"
    using that i by (subst reader_thread_func.simps) (simp split: option.splits)
  with i show ?thesis by blast
qed

text \<open>The theorem at a message whose id is a number, not a string, followed by another frame.\<close>

theorem frame_without_id_or_type_is_discarded_witness:
  "recv_frame (frame_socket (response_frame no_id_message @ response_frame pong_3)) =
     Some (Inr (2, map byte_of_char no_id_message), frame_socket (response_frame pong_3)) \<and>
   json_get_string (cstr (map char_of_byte (map byte_of_char no_id_message))) ''id'' = None \<and>
   reader_iteration busy_client (frame_socket (response_frame no_id_message @ response_frame pong_3)) =
     Some (True, busy_client, frame_socket (response_frame pong_3), []) \<and>
   reader_thread_func busy_client (frame_socket (response_frame no_id_message @ response_frame pong_3)) =
     reader_thread_func busy_client (frame_socket (response_frame pong_3))"
proof -
  have f: "recv_frame (frame_socket (response_frame no_id_message @ response_frame pong_3)) =
     Some (Inr (2, map byte_of_char no_id_message), frame_socket (response_frame pong_3))"
    using recv_frame_response_frame [of no_id_message "response_frame pong_3"]
    by (simp add: no_id_message_def response_frame_def)
  have t: "cstr (map char_of_byte (map byte_of_char no_id_message)) = no_id_message"
    by (rule payload_text) (simp add: no_id_message_def)
  have n: "json_get_string (cstr (map char_of_byte (map byte_of_char no_id_message))) ''id'' = None"
    unfolding t by (rule no_id_message_fields)
  have r: "reader_running busy_client" by (simp add: busy_client_def)
  from frame_without_id_or_type_is_discarded [OF f disjI1 [OF n], of busy_client] r f n
  show ?thesis by blast
qed

subsection \<open>The end of the loop\<close>

lemma reader_dispatch_running:
  "reader_dispatch client json = (client', calls) \<Longrightarrow> reader_running client' = reader_running client"
  by (auto simp: reader_dispatch_def dispatch_response_def split: option.splits if_splits)

lemma reader_iteration_running:
  "reader_iteration client sock = Some (go_on, client', sock', calls) \<Longrightarrow>
   reader_running client' = reader_running client"
  by (auto simp: reader_iteration_def Let_def
           split: option.splits sum.splits prod.splits if_splits
           dest: reader_dispatch_running)

lemma reader_iteration_break:
  "reader_iteration client sock = Some (False, client', sock', calls) \<Longrightarrow>
   (\<exists>err. recv_frame sock = Some (Inl err, sock')) \<and> calls = [] \<and>
   client' = (if reader_running client then client\<lparr>connected := False\<rparr> else client)"
  by (auto simp: reader_iteration_def Let_def split: option.splits sum.splits prod.splits)

lemma reader_pass_iff:
  "reader_pass (client, sock) (client', sock') \<longleftrightarrow>
   reader_running client \<and> (\<exists>calls. reader_iteration client sock = Some (True, client', sock', calls))"
  by (auto simp: reader_pass_def split: option.splits)

lemma reader_pass_running:
  "reader_pass (client, sock) (client', sock') \<Longrightarrow> reader_running client'"
  by (auto simp: reader_pass_iff dest: reader_iteration_running)

lemma reader_passes_running:
  "reader_pass\<^sup>*\<^sup>* (client, sock) (client', sock') \<Longrightarrow> reader_running client \<Longrightarrow>
   reader_running client'"
  by (induction rule: rtranclp_induct2) (auto dest: reader_pass_running)

lemma reader_thread_func_ends:
  "reader_thread_func client sock = Some (client', sock', calls) \<Longrightarrow> reader_running client \<Longrightarrow>
   \<exists>c s err. reader_pass\<^sup>*\<^sup>* (client, sock) (c, s) \<and> recv_frame s = Some (Inl err, sock') \<and>
             client' = c\<lparr>connected := False\<rparr>"
proof (induction client sock arbitrary: calls rule: reader_thread_func.induct)
  case (1 client sock)
  from "1.prems" obtain go_on c1 s1 calls1 where
    it: "reader_iteration client sock = Some (go_on, c1, s1, calls1)"
    by (subst (asm) reader_thread_func.simps) (auto split: option.splits)
  show ?case
  proof (cases go_on)
    case False
    with it "1.prems" have "client' = c1" "sock' = s1"
      by (subst (asm) reader_thread_func.simps, simp)+
    with reader_iteration_break [of client sock c1 s1 calls1] it False "1.prems"(2)
    obtain err where "recv_frame sock = Some (Inl err, sock')"
      and "client' = client\<lparr>connected := False\<rparr>"
      by auto
    then show ?thesis by blast
  next
    case True
    with it "1.prems" obtain calls2 where
      rec: "reader_thread_func c1 s1 = Some (client', sock', calls2)"
      by (subst (asm) reader_thread_func.simps) (auto split: option.splits)
    have run: "reader_running c1" using reader_iteration_running [OF it] "1.prems"(2) by simp
    from "1.IH" [OF "1.prems"(2) it refl refl refl True rec run] obtain c s err where
      reach: "reader_pass\<^sup>*\<^sup>* (c1, s1) (c, s)" and
      rest: "recv_frame s = Some (Inl err, sock')" "client' = c\<lparr>connected := False\<rparr>"
      by blast
    have "reader_pass (client, sock) (c1, s1)"
      using it True "1.prems"(2) by (auto simp: reader_pass_iff)
    from converse_rtranclp_into_rtranclp [OF this reach] rest show ?thesis by blast
  qed
qed

lemma reader_thread_func_pass:
  assumes "reader_pass (client, sock) (c1, s1)"
    and "reader_thread_func c1 s1 = Some (client', sock', calls)"
  shows "\<exists>calls'. reader_thread_func client sock = Some (client', sock', calls')"
proof -
  from assms(1) obtain calls1 where "reader_running client"
    and "reader_iteration client sock = Some (True, c1, s1, calls1)"
    by (auto simp: reader_pass_iff)
  with assms(2) have "reader_thread_func client sock = Some (client', sock', calls1 @ calls)"
    by (subst reader_thread_func.simps) simp
  then show ?thesis by blast
qed

lemma reader_thread_func_passes:
  assumes "reader_pass\<^sup>*\<^sup>* (client, sock) (c, s)"
    and "\<exists>calls. reader_thread_func c s = Some (client', sock', calls)"
  shows "\<exists>calls. reader_thread_func client sock = Some (client', sock', calls)"
  using assms
  by (induction rule: converse_rtranclp_induct2) (auto dest: reader_thread_func_pass)

lemma reader_thread_func_failure:
  assumes "recv_frame sock = Some (Inl err, sock')" and "reader_running client"
  shows "reader_thread_func client sock = Some (client\<lparr>connected := False\<rparr>, sock', [])"
  using assms by (subst reader_thread_func.simps) (simp add: reader_iteration_def)

lemma send_request_wait_timeout:
  assumes "map_of (pending_requests client) a = Some req" and "\<not> req_completed req"
  shows "send_request_wait client a ((others, ETIMEDOUT) # rounds) =
         Some ((SQRL_ERR_TIMEOUT, None), remove_request (others client) a)"
  using assms by (simp add: wait_round_def)

text \<open>
  C1, as amended. When \<^verbatim>\<open>recv_frame\<close> fails, with a decode error or because the read
  failed or the peer closed, the loop ends and the client is marked as not connected; the
  pending list is left as it is. A request that is not completed stays so; its waiter goes
  on waiting and returns \<^verbatim>\<open>SQRL_ERR_TIMEOUT\<close> when its own wait times out. This is so in
  whatever state the run has got to when \<^verbatim>\<open>recv_frame\<close> fails. And a loop that has been
  entered ends in no other way (the clearing of \<^verbatim>\<open>reader_running\<close> by another thread
  apart): a run that returns has got, by passes that went on, to a state in which
  \<^verbatim>\<open>recv_frame\<close> failed on the socket of that state; it returns the client of that state,
  marked as not connected, and the socket as that \<^verbatim>\<open>recv_frame\<close> left it.
\<close>

theorem reader_stops_on_receive_failure:
  "(\<forall>err sock'. recv_frame sock = Some (Inl err, sock') \<and> reader_running client \<longrightarrow>
      reader_thread_func client sock = Some (client\<lparr>connected := False\<rparr>, sock', []) \<and>
      pending_requests (client\<lparr>connected := False\<rparr>) = pending_requests client \<and>
      (\<forall>a req. map_of (pending_requests client) a = Some req \<and> \<not> req_completed req \<longrightarrow>
         wait_round req Woken = None \<and>
         send_request_wait (client\<lparr>connected := False\<rparr>) a [(\<lambda>c. c, ETIMEDOUT)] =
           Some ((SQRL_ERR_TIMEOUT, None), remove_request (client\<lparr>connected := False\<rparr>) a))) \<and>
   (\<forall>c s err sock'.
      reader_running client \<and> reader_pass\<^sup>*\<^sup>* (client, sock) (c, s) \<and>
      recv_frame s = Some (Inl err, sock') \<longrightarrow>
      (\<exists>calls. reader_thread_func client sock = Some (c\<lparr>connected := False\<rparr>, sock', calls)) \<and>
      pending_requests (c\<lparr>connected := False\<rparr>) = pending_requests c) \<and>
   (\<forall>client' sock' calls.
      reader_thread_func client sock = Some (client', sock', calls) \<and> reader_running client \<longrightarrow>
      \<not> connected client' \<and>
      (\<exists>c s err. reader_pass\<^sup>*\<^sup>* (client, sock) (c, s) \<and> recv_frame s = Some (Inl err, sock') \<and>
                 client' = c\<lparr>connected := False\<rparr>))"
proof -
  have a: "reader_thread_func client sock = Some (client\<lparr>connected := False\<rparr>, sock', [])"
    if "recv_frame sock = Some (Inl err, sock') \<and> reader_running client" for err sock'
    using that by (intro reader_thread_func_failure) simp_all
  have b: "wait_round req Woken = None \<and>
         send_request_wait (client\<lparr>connected := False\<rparr>) a [(\<lambda>c. c, ETIMEDOUT)] =
           Some ((SQRL_ERR_TIMEOUT, None), remove_request (client\<lparr>connected := False\<rparr>) a)"
    if "map_of (pending_requests client) a = Some req \<and> \<not> req_completed req" for a req
    using that by (simp add: wait_round_def)
  have c: "\<not> connected client' \<and>
           (\<exists>c s err. reader_pass\<^sup>*\<^sup>* (client, sock) (c, s) \<and> recv_frame s = Some (Inl err, sock') \<and>
                      client' = c\<lparr>connected := False\<rparr>)"
    if "reader_thread_func client sock = Some (client', sock', calls) \<and> reader_running client"
    for client' sock' calls
  proof -
    from that reader_thread_func_ends [of client sock client' sock' calls] obtain c s err where
      e: "reader_pass\<^sup>*\<^sup>* (client, sock) (c, s)" "recv_frame s = Some (Inl err, sock')"
         "client' = c\<lparr>connected := False\<rparr>"
      by blast
    then have "\<not> connected client'" by simp
    with e show ?thesis by blast
  qed
  have d: "pending_requests (client\<lparr>connected := False\<rparr>) = pending_requests client" by simp
  have e: "(\<exists>calls. reader_thread_func client sock = Some (c\<lparr>connected := False\<rparr>, sock', calls)) \<and>
           pending_requests (c\<lparr>connected := False\<rparr>) = pending_requests c"
    if "reader_running client \<and> reader_pass\<^sup>*\<^sup>* (client, sock) (c, s) \<and>
        recv_frame s = Some (Inl err, sock')"
    for c s err sock'
  proof -
    from that have run: "reader_running c" by (blast dest: reader_passes_running)
    from that have "reader_thread_func c s = Some (c\<lparr>connected := False\<rparr>, sock', [])"
      using run by (intro reader_thread_func_failure) simp_all
    then have "\<exists>calls. reader_thread_func c s = Some (c\<lparr>connected := False\<rparr>, sock', calls)"
      by blast
    with that reader_thread_func_passes [of client sock c s "c\<lparr>connected := False\<rparr>" sock']
    show ?thesis by simp
  qed
  from a b c d e show ?thesis by blast
qed

text \<open>A socket that the peer has closed.\<close>

definition closed_socket :: socket where
  "closed_socket = \<lparr>send_script = [], select_script = [], recv_script = [RecvClosed], sent = []\<rparr>"

lemma recv_frame_closed: "recv_frame closed_socket = Some (Inl SQRL_ERR_RECV, closed_socket)"
  by (simp add: recv_frame_def closed_socket_def recv_all_def recv_all_loop.simps)

text \<open>A socket on which a message without id arrives before the peer closes.\<close>

definition closing_socket :: socket where
  "closing_socket =
     \<lparr>send_script = [], select_script = [],
      recv_script = [RecvData (response_frame no_id_message), RecvClosed], sent = []\<rparr>"

lemma recv_frame_closing:
  "recv_frame closing_socket = Some (Inr (0x02, map byte_of_char no_id_message), closed_socket)"
proof -
  let ?v = "of_nat (length no_id_message + 2) :: uint32_t"
  let ?hdr = "write_u32_be ?v @ [0x02, 0x02]"
  let ?pay = "map byte_of_char no_id_message"
  let ?s1 = "\<lparr>send_script = [], select_script = [], recv_script = [RecvData ?pay, RecvClosed],
              sent = []\<rparr>"
  have len: "length ?hdr = 6" by (simp add: write_u32_be_def)
  have ne: "?hdr \<noteq> []" by simp
  have pne: "?pay \<noteq> []" by (simp add: no_id_message_def)
  have sock: "closing_socket =
              \<lparr>send_script = [], select_script = [],
               recv_script = RecvData (?hdr @ ?pay) # [RecvClosed], sent = []\<rparr>"
    by (simp add: closing_socket_def response_frame_def)
  have h: "recv_all closing_socket 6 0 = Some ((6, ?hdr), ?s1)"
    unfolding sock using recv_all_chunk [OF ne, of "[]" "[]" ?pay "[RecvClosed]" "[]"] len pne
    by simp
  have l: "length no_id_message = 22" by (simp add: no_id_message_def)
  have v: "?v = 24" by (simp add: l)
  have rd: "read_u32_be ?hdr = 24"
    using read_write_u32_be [of ?v "[0x02, 0x02]"] v by simp
  have t: "?hdr ! 4 = 0x02" using len by (simp add: nth_append write_u32_be_def)
  have "recv_all ?s1 (length ?pay) 0 = Some ((int (length ?pay), ?pay), closed_socket)"
    using recv_all_chunk [OF pne, of "[]" "[]" "[]" "[RecvClosed]" "[]"]
    by (simp add: closed_socket_def)
  then have p: "recv_all ?s1 22 0 = Some ((22, ?pay), closed_socket)"
    by (simp add: l)
  show ?thesis
    unfolding recv_frame_def h
    using rd t p by (simp add: Let_def SQRL_MAX_MESSAGE_SIZE_def)
qed

lemma reader_pass_closing: "reader_pass (busy_client, closing_socket) (busy_client, closed_socket)"
proof -
  have t: "cstr (map char_of_byte (map byte_of_char no_id_message)) = no_id_message"
    by (rule payload_text) (simp add: no_id_message_def)
  have "reader_dispatch busy_client no_id_message = (busy_client, [])"
    by (simp add: reader_dispatch_def no_id_message_fields)
  then have "reader_iteration busy_client closing_socket = Some (True, busy_client, closed_socket, [])"
    using reader_iteration_frame [OF recv_frame_closing, of busy_client] t by simp
  then show ?thesis by (simp add: reader_pass_def busy_client_def)
qed

text \<open>
  The theorem at a closed socket, with the request 2 outstanding, and at the socket that
  delivers a message first.
\<close>

theorem reader_stops_on_receive_failure_witness:
  "recv_frame closed_socket = Some (Inl SQRL_ERR_RECV, closed_socket) \<and>
   reader_running busy_client \<and>
   reader_thread_func busy_client closed_socket =
     Some (busy_client\<lparr>connected := False\<rparr>, closed_socket, []) \<and>
   map_of (pending_requests busy_client) 100 = Some (new_request ''2'') \<and>
   \<not> req_completed (new_request ''2'') \<and>
   send_request_wait (busy_client\<lparr>connected := False\<rparr>) 100 [(\<lambda>c. c, ETIMEDOUT)] =
     Some ((SQRL_ERR_TIMEOUT, None), remove_request (busy_client\<lparr>connected := False\<rparr>) 100) \<and>
   reader_pass\<^sup>*\<^sup>* (busy_client, closing_socket) (busy_client, closed_socket) \<and>
   (\<exists>calls. reader_thread_func busy_client closing_socket =
      Some (busy_client\<lparr>connected := False\<rparr>, closed_socket, calls)) \<and>
   (\<exists>c s err. reader_pass\<^sup>*\<^sup>* (busy_client, closing_socket) (c, s) \<and>
              recv_frame s = Some (Inl err, closed_socket) \<and>
              busy_client\<lparr>connected := False\<rparr> = c\<lparr>connected := False\<rparr>)"
proof -
  have r: "reader_running busy_client" by (simp add: busy_client_def)
  have m: "map_of (pending_requests busy_client) 100 = Some (new_request ''2'')"
    by (simp add: busy_client_def)
  have n: "\<not> req_completed (new_request ''2'')" by (simp add: new_request_def)
  have p: "reader_pass\<^sup>*\<^sup>* (busy_client, closing_socket) (busy_client, closed_socket)"
    using reader_pass_closing by (rule r_into_rtranclp)
  have first: "reader_thread_func busy_client closed_socket =
                 Some (busy_client\<lparr>connected := False\<rparr>, closed_socket, []) \<and>
               send_request_wait (busy_client\<lparr>connected := False\<rparr>) 100 [(\<lambda>c. c, ETIMEDOUT)] =
                 Some ((SQRL_ERR_TIMEOUT, None), remove_request (busy_client\<lparr>connected := False\<rparr>) 100)"
    using reader_stops_on_receive_failure [of closed_socket busy_client] recv_frame_closed r m n
    by blast
  have run: "\<exists>calls. reader_thread_func busy_client closing_socket =
               Some (busy_client\<lparr>connected := False\<rparr>, closed_socket, calls)"
    using reader_stops_on_receive_failure [of closing_socket busy_client] recv_frame_closed r p
    by blast
  then obtain calls where "reader_thread_func busy_client closing_socket =
               Some (busy_client\<lparr>connected := False\<rparr>, closed_socket, calls)"
    by blast
  with reader_stops_on_receive_failure [of closing_socket busy_client] r
  have last: "\<exists>c s err. reader_pass\<^sup>*\<^sup>* (busy_client, closing_socket) (c, s) \<and>
              recv_frame s = Some (Inl err, closed_socket) \<and>
              busy_client\<lparr>connected := False\<rparr> = c\<lparr>connected := False\<rparr>"
    by blast
  from recv_frame_closed r m n p first run last show ?thesis by blast
qed

text \<open>
  C1 as stated fails: after the loop has ended on a closed socket the outstanding request is
  still there and not completed; its waiter, once woken, goes on waiting, and it returns
  \<^verbatim>\<open>SQRL_ERR_TIMEOUT\<close> when its own wait times out, not \<^verbatim>\<open>SQRL_ERR_CLOSED\<close> or
  \<^verbatim>\<open>SQRL_ERR_RECV\<close>.
\<close>

theorem pending_requests_not_failed_counterexample:
  "recv_frame closed_socket = Some (Inl SQRL_ERR_RECV, closed_socket) \<and>
   reader_thread_func busy_client closed_socket =
     Some (busy_client\<lparr>connected := False\<rparr>, closed_socket, []) \<and>
   pending_requests (busy_client\<lparr>connected := False\<rparr>) =
     [(100, \<lparr>req_id = ''2'', req_response = None, req_error = SQRL_OK, req_completed = False\<rparr>)] \<and>
   send_request_wait (busy_client\<lparr>connected := False\<rparr>) 100 [(\<lambda>c. c, Woken)] = None \<and>
   send_request_wait (busy_client\<lparr>connected := False\<rparr>) 100 [(\<lambda>c. c, Woken), (\<lambda>c. c, ETIMEDOUT)] =
     Some ((SQRL_ERR_TIMEOUT, None), busy_client\<lparr>connected := False, pending_requests := []\<rparr>) \<and>
   SQRL_ERR_TIMEOUT \<noteq> SQRL_ERR_CLOSED \<and> SQRL_ERR_TIMEOUT \<noteq> SQRL_ERR_RECV"
proof -
  have "reader_thread_func busy_client closed_socket =
     Some (busy_client\<lparr>connected := False\<rparr>, closed_socket, [])"
    by (subst reader_thread_func.simps)
       (simp add: reader_iteration_def recv_frame_closed busy_client_def)
  then show ?thesis
    by (simp add: recv_frame_closed busy_client_def new_request_def wait_round_def remove_request_def)
qed

section \<open>The request timeout\<close>

lemma unlink_request_drops_id:
  "map_of reqs a = Some req \<Longrightarrow> distinct (map (req_id \<circ> snd) reqs) \<Longrightarrow>
   req_id req \<notin> set (map (req_id \<circ> snd) (unlink_request a reqs))"
proof (induction reqs)
  case Nil
  then show ?case by simp
next
  case (Cons x reqs)
  obtain b q where x: "x = (b, q)" by (cases x)
  show ?case
  proof (cases "b = a")
    case True
    with Cons.prems x show ?thesis by simp
  next
    case False
    with Cons.prems x have m: "map_of reqs a = Some req" by simp
    then have "(a, req) \<in> set reqs" by (rule map_of_SomeD)
    then have in_rest: "req_id req \<in> set (map (req_id \<circ> snd) reqs)" by force
    from Cons.prems(2) x have "req_id q \<notin> set (map (req_id \<circ> snd) reqs)" by simp
    with in_rest have "req_id req \<noteq> req_id q" by metis
    moreover from Cons.IH [OF m] Cons.prems
    have "req_id req \<notin> set (map (req_id \<circ> snd) (unlink_request a reqs))" by simp
    ultimately show ?thesis using x False by simp
  qed
qed

text \<open>
  With no other thread at work on the client, a request whose frame has been written and
  whose wait times out leaves the client exactly as it was before the call.
\<close>

lemma send_request_times_out:
  assumes "send_frame sock json = Some (SQRL_OK, sock')"
  shows "send_request client sock json id' a (\<lambda>c. c) [(\<lambda>c. c, ETIMEDOUT)] =
         Some ((SQRL_ERR_TIMEOUT, None), client, sock')"
  using assms
  by (simp add: send_request_def register_request_def new_request_def wait_round_def remove_request_def)

text \<open>
  Take a request registered at address \<open>a\<close> that is not completed when its waiter looks,
  and let the wait that follows return \<^verbatim>\<open>ETIMEDOUT\<close>, whatever the other threads do to the
  client meanwhile. Then \<^verbatim>\<open>send_request\<close> returns \<^verbatim>\<open>SQRL_ERR_TIMEOUT\<close> and has unlinked
  its node, by address. When the node is still in the list under its id and no other node of
  the list has that id, the list no longer holds the id, and a late response with that id
  changes nothing, neither through \<^verbatim>\<open>dispatch_response\<close> nor as a frame that the reader
  thread dispatches, and calls no callback. Nothing in \<^verbatim>\<open>send_request\<close> sees to it that
  the ids of the list differ: that is left to the counter.
\<close>

lemma timeout_with_distinct_ids:
  assumes "map_of (pending_requests client) a = Some req" and "\<not> req_completed req"
    and "map_of (pending_requests (others client)) a = Some req'" and "req_id req' = req_id req"
    and "distinct (map (req_id \<circ> snd) (pending_requests (others client)))"
  shows "send_request_wait client a ((others, ETIMEDOUT) # rounds) =
           Some ((SQRL_ERR_TIMEOUT, None), remove_request (others client) a) \<and>
         req_id req \<notin> set (map (req_id \<circ> snd) (pending_requests (remove_request (others client) a))) \<and>
         dispatch_response (remove_request (others client) a) (req_id req) late =
           remove_request (others client) a \<and>
         (json_get_string late ''id'' = Some (req_id req) \<and>
          json_get_string late ''type'' \<noteq> Some ''change'' \<longrightarrow>
            reader_dispatch (remove_request (others client) a) late =
              (remove_request (others client) a, []))"
proof -
  let ?c = "remove_request (others client) a"
  have w: "send_request_wait client a ((others, ETIMEDOUT) # rounds) = Some ((SQRL_ERR_TIMEOUT, None), ?c)"
    using assms(1,2) by (simp add: wait_round_def)
  have "req_id req' \<notin> set (map (req_id \<circ> snd) (unlink_request a (pending_requests (others client))))"
    using assms(3,5) by (rule unlink_request_drops_id)
  then have n: "req_id req \<notin> set (map (req_id \<circ> snd) (pending_requests ?c))"
    using assms(4) by (simp add: remove_request_def)
  then have d: "dispatch_response ?c (req_id req) late = ?c"
    by (rule dispatch_response_unknown)
  have "reader_dispatch ?c late = (?c, [])"
    if "json_get_string late ''id'' = Some (req_id req) \<and> json_get_string late ''type'' \<noteq> Some ''change''"
    using that d by (auto simp: reader_dispatch_def split: option.splits)
  with w n d show ?thesis by blast
qed

section \<open>Correlation ids\<close>

subsection \<open>The counter\<close>

text \<open>The conversion \<^verbatim>\<open>%llu\<close> of \<^verbatim>\<open>snprintf\<close>: a number in decimal digits.\<close>

definition digit_char :: "nat \<Rightarrow> char" where
  "digit_char d = char_of (of_char CHR ''0'' + d)"

function decimal :: "nat \<Rightarrow> string" where
  "decimal n = (if n < 10 then [digit_char n] else decimal (n div 10) @ [digit_char (n mod 10)])"
  by pat_completeness auto
termination
  by (relation "measure id") auto

declare decimal.simps [simp del]


definition fmt_llu :: "uint64_t \<Rightarrow> string" where
  "fmt_llu v = decimal (unat v)"

text \<open>
  \<^verbatim>\<open>next_request_id\<close> increments the counter of the client and prints the new value into
  \<^verbatim>\<open>char buf[32]\<close>, which keeps at most 31 characters. The increment
  \<^verbatim>\<open>++client->request_id\<close> is made under no mutex: it reads the counter, adds one and
  writes the sum back, and the value printed is that sum. \<open>others\<close> is what the other
  threads do to the client between the read and the write; for a call that no other
  thread's work overlaps it is the identity.
\<close>

definition next_request_id ::
  "(sqrl_client \<Rightarrow> sqrl_client) \<Rightarrow> sqrl_client \<Rightarrow> string \<times> sqrl_client"
where
  "next_request_id others client =
     (let old = request_id client;
          client' = others client;
          v = old + 1
      in (take 31 (fmt_llu v), client'\<lparr>request_id := v\<rparr>))"

text \<open>
  The ids and the client that \<open>n\<close> calls of \<^verbatim>\<open>next_request_id\<close> give when every call has
  returned before the next one begins.
\<close>

fun issue_ids :: "nat \<Rightarrow> sqrl_client \<Rightarrow> string list \<times> sqrl_client" where
  "issue_ids 0 client = ([], client)"
| "issue_ids (Suc n) client =
     (let (id', client') = next_request_id (\<lambda>c. c) client;
          (ids, client'') = issue_ids n client'
      in (id' # ids, client''))"

lemma of_char_digit_char: "d < 10 \<Longrightarrow> of_char (digit_char d) = 48 + d"
  by (simp add: digit_char_def)

lemma digit_char_inj: "d < 10 \<Longrightarrow> e < 10 \<Longrightarrow> digit_char d = digit_char e \<Longrightarrow> d = e"
  using of_char_digit_char [of d] of_char_digit_char [of e] by (metis add_left_cancel)

lemma decimal_nonempty: "decimal n \<noteq> []"
  by (subst decimal.simps) simp

lemma decimal_length_one: "length (decimal n) = Suc 0 \<longleftrightarrow> n < 10"
  using decimal_nonempty [of "n div 10"]
  by (subst decimal.simps) (auto simp: length_0_conv)

lemma decimal_inj: "decimal m = decimal n \<Longrightarrow> m = n"
proof (induction m arbitrary: n rule: decimal.induct)
  case (1 m)
  show ?case
  proof (cases "m < 10")
    case True
    then have "length (decimal m) = Suc 0" by (simp add: decimal_length_one)
    with "1.prems" have n: "n < 10" by (simp add: decimal_length_one)
    from True n "1.prems" have "digit_char m = digit_char n"
      by (simp add: decimal.simps)
    with True n show ?thesis by (rule digit_char_inj)
  next
    case False
    then have "length (decimal m) \<noteq> Suc 0" by (simp add: decimal_length_one)
    with "1.prems" have n: "\<not> n < 10" by (simp add: decimal_length_one)
    from False n "1.prems" have
      "decimal (m div 10) @ [digit_char (m mod 10)] = decimal (n div 10) @ [digit_char (n mod 10)]"
      by (simp add: decimal.simps [of m] decimal.simps [of n])
    then have a: "decimal (m div 10) = decimal (n div 10)" and b: "digit_char (m mod 10) = digit_char (n mod 10)"
      by simp_all
    from "1.IH" [OF False a] have c: "m div 10 = n div 10" .
    have d: "m mod 10 = n mod 10" using b by (intro digit_char_inj) simp_all
    from c d show ?thesis by (metis div_mult_mod_eq)
  qed
qed

lemma decimal_length: "0 < k \<Longrightarrow> n < 10 ^ k \<Longrightarrow> length (decimal n) \<le> k"
proof (induction n arbitrary: k rule: decimal.induct)
  case (1 n)
  show ?case
  proof (cases "n < 10")
    case True
    then have "length (decimal n) = Suc 0" by (simp add: decimal_length_one)
    with "1.prems" show ?thesis by simp
  next
    case False
    with "1.prems" have k: "1 < k" by (cases "k = 1") auto
    then obtain j where j: "k = Suc j" "0 < j" by (cases k) auto
    from "1.prems" j have "n div 10 < 10 ^ j"
      by (simp add: less_mult_imp_div_less mult.commute)
    from "1.IH" [OF False j(2) this] have "length (decimal (n div 10)) \<le> j" .
    with False j show ?thesis by (simp add: decimal.simps [of n])
  qed
qed

lemma fmt_llu_short: "length (fmt_llu v) \<le> 20"
proof -
  have "unat v < 2 ^ 64" using unsigned_less [of v] by simp
  also have "(2 :: nat) ^ 64 < 10 ^ 20" by simp
  finally show ?thesis unfolding fmt_llu_def by (intro decimal_length) simp_all
qed

lemma fmt_llu_inj: "fmt_llu v = fmt_llu w \<Longrightarrow> v = w"
  unfolding fmt_llu_def by (auto dest: decimal_inj simp: word_unat_eq_iff)

lemma next_request_id_eq:
  "next_request_id others client =
   (fmt_llu (request_id client + 1), (others client)\<lparr>request_id := request_id client + 1\<rparr>)"
  using fmt_llu_short [of "request_id client + 1"] by (simp add: next_request_id_def Let_def)

lemma issue_ids_eq:
  "issue_ids n client =
     (map (\<lambda>k. fmt_llu (request_id client + of_nat (Suc k))) [0..<n],
      client\<lparr>request_id := request_id client + of_nat n\<rparr>)"
proof (induction n arbitrary: client)
  case 0
  then show ?case by simp
next
  case (Suc n)
  have u: "[0..<Suc n] = 0 # map Suc [0..<n]"
    by (simp add: upt_conv_Cons map_Suc_upt del: upt_Suc)
  show ?case
    unfolding u
    by (simp add: next_request_id_eq Suc.IH o_def add.assoc del: upt_Suc)
qed


lemma word_of_nat_inj64:
  assumes "j < 2 ^ 64" and "k < 2 ^ 64" and "(of_nat j :: uint64_t) = of_nat k"
  shows "j = k"
proof -
  from assms(3) have "unat (of_nat j :: uint64_t) = unat (of_nat k :: uint64_t)" by simp
  then have "j mod 2 ^ 64 = k mod 2 ^ 64" by (simp add: unat_of_nat)
  with assms(1,2) show ?thesis by simp
qed

text \<open>
  Calls that do not overlap get ids that differ, as long as there are fewer than \<open>2^64\<close> of
  them.
\<close>

lemma issued_ids_distinct:
  assumes "n < 2 ^ 64"
  shows "distinct (fst (issue_ids n client))"
proof -
  have "inj_on (\<lambda>k. fmt_llu (request_id client + of_nat (Suc k))) (set [0..<n])"
  proof (rule inj_onI)
    fix j k
    assume j: "j \<in> set [0..<n]" and k: "k \<in> set [0..<n]"
      and e: "fmt_llu (request_id client + of_nat (Suc j)) = fmt_llu (request_id client + of_nat (Suc k))"
    from e have "request_id client + of_nat (Suc j) = request_id client + of_nat (Suc k)"
      by (rule fmt_llu_inj)
    then have "(of_nat (Suc j) :: uint64_t) = of_nat (Suc k)" by (simp del: of_nat_Suc)
    moreover from j k assms have "Suc j < 2 ^ 64" "Suc k < 2 ^ 64" by simp_all
    ultimately have "Suc j = Suc k" by (intro word_of_nat_inj64)
    then show "j = k" by simp
  qed
  then show ?thesis by (simp add: issue_ids_eq distinct_map del: upt_Suc)
qed

lemma decimal_digits:
  "decimal (Suc 0) = ''1''" "decimal 2 = ''2''" "decimal 3 = ''3''"
  by (simp_all add: decimal.simps digit_char_def char_of_def bit_Suc_0_iff)

section \<open>The public operations\<close>

subsection \<open>Initialization\<close>

text \<open>\<^verbatim>\<open>sqrl_init\<close> and \<^verbatim>\<open>sqrl_cleanup\<close>, as functions of the flag \<^verbatim>\<open>g_initialized\<close>.\<close>

definition sqrl_init :: "bool \<Rightarrow> sqrl_error_t \<times> bool" where
  "sqrl_init g_initialized = (if g_initialized then (SQRL_OK, g_initialized) else (SQRL_OK, True))"

definition sqrl_cleanup :: "bool \<Rightarrow> bool" where
  "sqrl_cleanup g_initialized = False"

text \<open>
  \<^verbatim>\<open>sqrl_error_string\<close> on the codes of the enumeration; the \<^verbatim>\<open>default\<close> branch of the
  switch is for integers that are none of them.
\<close>

fun sqrl_error_string :: "sqrl_error_t \<Rightarrow> string" where
  "sqrl_error_string SQRL_OK = ''Success''"
| "sqrl_error_string SQRL_ERR_CONNECT = ''Connection failed''"
| "sqrl_error_string SQRL_ERR_HANDSHAKE = ''Handshake failed''"
| "sqrl_error_string SQRL_ERR_VERSION_MISMATCH = ''Protocol version mismatch''"
| "sqrl_error_string SQRL_ERR_AUTH_FAILED = ''Authentication failed''"
| "sqrl_error_string SQRL_ERR_SEND = ''Send failed''"
| "sqrl_error_string SQRL_ERR_RECV = ''Receive failed''"
| "sqrl_error_string SQRL_ERR_TIMEOUT = ''Timeout''"
| "sqrl_error_string SQRL_ERR_CLOSED = ''Connection closed''"
| "sqrl_error_string SQRL_ERR_INVALID_ARG = ''Invalid argument''"
| "sqrl_error_string SQRL_ERR_MEMORY = ''Memory allocation failed''"
| "sqrl_error_string SQRL_ERR_ENCODE = ''Encoding failed''"
| "sqrl_error_string SQRL_ERR_DECODE = ''Decoding failed''"
| "sqrl_error_string SQRL_ERR_SERVER = ''Server error''"
| "sqrl_error_string SQRL_ERR_NOT_FOUND = ''Not found''"

definition sqrl_options_default :: sqrl_options_t where
  "sqrl_options_default =
     \<lparr>auth_token = None, use_msgpack = True, connect_timeout_ms = 5000,
      opt_request_timeout_ms = 30000\<rparr>"

subsection \<open>Connection management\<close>

text \<open>
  What the system gives \<^verbatim>\<open>sqrl_connect\<close>: whether \<^verbatim>\<open>getaddrinfo\<close> succeeds, the descriptor
  that \<^verbatim>\<open>socket\<close> returns, whether \<^verbatim>\<open>connect\<close> and \<^verbatim>\<open>pthread_create\<close> succeed, and the
  socket once it is connected.
\<close>

record connect_env =
  getaddrinfo_ok :: bool
  socket_result :: int
  connect_ok :: bool
  pthread_create_ok :: bool
  peer :: socket

text \<open>
  \<^verbatim>\<open>sqrl_connect\<close>. \<open>client_out\<close> tells whether the output pointer is there; the result holds
  what is stored through it. The port goes to \<^verbatim>\<open>getaddrinfo\<close> only.
\<close>

definition sqrl_connect ::
  "bool \<Rightarrow> string option \<Rightarrow> uint16_t \<Rightarrow> sqrl_options_t option \<Rightarrow> connect_env \<Rightarrow>
   (sqrl_error_t \<times> (sqrl_client \<times> socket) option) option"
where
  "sqrl_connect client_out host port options env =
     (if \<not> client_out \<or> host = None then Some (SQRL_ERR_INVALID_ARG, None)
      else
        (let client = \<lparr>fd = - 1, session_id = None, encoding = None, connected = False,
                        request_id = 0,
                        request_timeout_ms =
                          (case options of None \<Rightarrow> 30000 | Some opt \<Rightarrow> opt_request_timeout_ms opt),
                        reader_running = False, pending_requests = [], subscriptions = []\<rparr>
         in if \<not> getaddrinfo_ok env then Some (SQRL_ERR_CONNECT, None)
            else
              (let client1 = client\<lparr>fd := socket_result env\<rparr>
               in if fd client1 < 0 then Some (SQRL_ERR_CONNECT, None)
                  else if \<not> connect_ok env then Some (SQRL_ERR_CONNECT, None)
                  else
                    (case do_handshake client1 options (peer env) of
                       None \<Rightarrow> None
                     | Some (err, client2, sock) \<Rightarrow>
                         if err \<noteq> SQRL_OK then Some (err, None)
                         else
                           (let client3 = client2\<lparr>connected := True, reader_running := True\<rparr>
                            in if \<not> pthread_create_ok env then Some (SQRL_ERR_CONNECT, None)
                               else Some (SQRL_OK, Some (client3, sock)))))))"

text \<open>
  \<^verbatim>\<open>sqrl_disconnect\<close> frees the client and everything it holds: nothing of it is left.
  The pointer that the caller passed dangles afterwards; here the caller holds no client
  any more.
\<close>

definition sqrl_disconnect :: "sqrl_client option \<Rightarrow> sqrl_client option" where
  "sqrl_disconnect client = None"

definition sqrl_session_id :: "sqrl_client option \<Rightarrow> string option" where
  "sqrl_session_id client = (case client of None \<Rightarrow> None | Some c \<Rightarrow> session_id c)"

definition sqrl_is_connected :: "sqrl_client option \<Rightarrow> bool" where
  "sqrl_is_connected client = (case client of None \<Rightarrow> False | Some c \<Rightarrow> connected c)"

subsection \<open>Requests\<close>

text \<open>
  What a call that sends a request meets: the address that \<^verbatim>\<open>calloc\<close> returns for the
  pending node, what the other threads do to the client between the read and the write of
  the counter and while the frame is written, and the rounds of the wait, as for
  \<open>next_request_id\<close> and \<open>send_request\<close>.
\<close>

record request_env =
  node_address :: nat
  while_counting :: "sqrl_client \<Rightarrow> sqrl_client"
  while_sending :: "sqrl_client \<Rightarrow> sqrl_client"
  wait_rounds :: "((sqrl_client \<Rightarrow> sqrl_client) \<times> cond_result) list"

definition sqrl_ping ::
  "sqrl_client option \<Rightarrow> socket \<Rightarrow> request_env \<Rightarrow>
   (sqrl_error_t \<times> sqrl_client option \<times> socket) option"
where
  \<open>sqrl_ping client sock env =
     (case client of
        None \<Rightarrow> Some (SQRL_ERR_CLOSED, None, sock)
      | Some c \<Rightarrow>
          if \<not> connected c then Some (SQRL_ERR_CLOSED, Some c, sock)
          else
            (let (id', c1) = next_request_id (while_counting env) c;
                 json = take 255 (''{"type":"ping","id":"'' @ id' @ ''"}'')
             in case send_request c1 sock json id' (node_address env) (while_sending env)
                       (wait_rounds env) of
                  None \<Rightarrow> None
                | Some ((err, response), c2, sock') \<Rightarrow>
                    (case response of
                       None \<Rightarrow> Some (err, Some c2, sock')
                     | Some r \<Rightarrow>
                         Some (if err = SQRL_OK then
                                 (case json_get_string r ''type'' of
                                    None \<Rightarrow> SQRL_ERR_SERVER
                                  | Some resp_type \<Rightarrow>
                                      if resp_type \<noteq> ''pong'' then SQRL_ERR_SERVER else err)
                               else err,
                               Some c2, sock'))))\<close>

text \<open>
  The end of \<^verbatim>\<open>sqrl_query\<close>: the \<^verbatim>\<open>data\<close> field of the response as an object, or else the
  text behind \<^verbatim>\<open>"data":\<close> without the closing braces and newlines, or else \<^verbatim>\<open>null\<close>.
\<close>

definition query_data :: "string \<Rightarrow> string" where
  \<open>query_data response =
     (case json_get_object response ''data'' of
        Some data \<Rightarrow> data
      | None \<Rightarrow>
          (case strstr response ''"data":'' of
             None \<Rightarrow> ''null''
           | Some data_start \<Rightarrow>
               rev (dropWhile (\<lambda>c. c = CHR ''}'' \<or> c = CHR 0x0A)
                      (rev (dropWhile (\<lambda>c. c = CHR '' '') (drop 7 data_start))))))\<close>

definition sqrl_query ::
  "sqrl_client option \<Rightarrow> socket \<Rightarrow> string option \<Rightarrow> bool \<Rightarrow> request_env \<Rightarrow>
   ((sqrl_error_t \<times> string option) \<times> sqrl_client option \<times> socket) option"
where
  \<open>sqrl_query client sock query result_out env =
     (case (client, query) of
        (Some c, Some q) \<Rightarrow>
          if \<not> result_out then Some ((SQRL_ERR_INVALID_ARG, None), client, sock)
          else if \<not> connected c then Some ((SQRL_ERR_CLOSED, None), client, sock)
          else
            (let (id', c1) = next_request_id (while_counting env) c;
                 json_size = strlen q * 2 + 256;
                 json = take (json_size - 1)
                          (''{"type":"query","id":"'' @ id' @ ''","query":"'' @ cstr q @ ''"}'')
             in case send_request c1 sock json id' (node_address env) (while_sending env)
                       (wait_rounds env) of
                  None \<Rightarrow> None
                | Some ((err, response), c2, sock') \<Rightarrow>
                    (case response of
                       None \<Rightarrow> Some ((err, None), Some c2, sock')
                     | Some r \<Rightarrow>
                         if err \<noteq> SQRL_OK then Some ((err, None), Some c2, sock')
                         else if json_get_string r ''type'' = Some ''error'' then
                           Some ((SQRL_ERR_SERVER, None), Some c2, sock')
                         else Some ((SQRL_OK, Some (query_data r)), Some c2, sock')))
      | _ \<Rightarrow> Some ((SQRL_ERR_INVALID_ARG, None), client, sock))\<close>

definition parse_document :: "string \<Rightarrow> sqrl_document_t" where
  "parse_document json =
     \<lparr>doc_id = json_get_string json ''id'',
      doc_collection = json_get_string json ''collection'',
      doc_data = json_get_object json ''data'',
      doc_created_at = json_get_string json ''created_at'',
      doc_updated_at = json_get_string json ''updated_at''\<rparr>"

text \<open>
  What \<^verbatim>\<open>sqrl_insert\<close> and \<^verbatim>\<open>sqrl_update\<close> make of the response once \<^verbatim>\<open>send_request\<close> has
  returned it.
\<close>

definition document_result :: "string \<Rightarrow> sqrl_error_t \<times> sqrl_document_t option" where
  "document_result response =
     (if json_get_string response ''type'' = Some ''error'' then (SQRL_ERR_SERVER, None)
      else
        (case json_get_object response ''data'' of
           None \<Rightarrow> (SQRL_ERR_DECODE, None)
         | Some doc_json \<Rightarrow> (SQRL_OK, Some (parse_document doc_json))))"

definition sqrl_insert ::
  "sqrl_client option \<Rightarrow> socket \<Rightarrow> string option \<Rightarrow> string option \<Rightarrow> bool \<Rightarrow> request_env \<Rightarrow>
   ((sqrl_error_t \<times> sqrl_document_t option) \<times> sqrl_client option \<times> socket) option"
where
  \<open>sqrl_insert client sock collection data doc_out env =
     (case (client, collection, data) of
        (Some c, Some coll, Some d) \<Rightarrow>
          if \<not> doc_out then Some ((SQRL_ERR_INVALID_ARG, None), client, sock)
          else if \<not> connected c then Some ((SQRL_ERR_CLOSED, None), client, sock)
          else
            (let (id', c1) = next_request_id (while_counting env) c;
                 json_size = strlen coll + strlen d + 256;
                 json = take (json_size - 1)
                          (''{"type":"insert","id":"'' @ id' @ ''","collection":"'' @ cstr coll @
                           ''","data":'' @ cstr d @ ''}'')
             in case send_request c1 sock json id' (node_address env) (while_sending env)
                       (wait_rounds env) of
                  None \<Rightarrow> None
                | Some ((err, response), c2, sock') \<Rightarrow>
                    (case response of
                       None \<Rightarrow> Some ((err, None), Some c2, sock')
                     | Some r \<Rightarrow>
                         if err \<noteq> SQRL_OK then Some ((err, None), Some c2, sock')
                         else Some (document_result r, Some c2, sock')))
      | _ \<Rightarrow> Some ((SQRL_ERR_INVALID_ARG, None), client, sock))\<close>

definition sqrl_update ::
  "sqrl_client option \<Rightarrow> socket \<Rightarrow> string option \<Rightarrow> string option \<Rightarrow> string option \<Rightarrow> bool \<Rightarrow>
   request_env \<Rightarrow> ((sqrl_error_t \<times> sqrl_document_t option) \<times> sqrl_client option \<times> socket) option"
where
  \<open>sqrl_update client sock collection document_id data doc_out env =
     (case (client, collection, document_id, data) of
        (Some c, Some coll, Some doc, Some d) \<Rightarrow>
          if \<not> doc_out then Some ((SQRL_ERR_INVALID_ARG, None), client, sock)
          else if \<not> connected c then Some ((SQRL_ERR_CLOSED, None), client, sock)
          else
            (let (id', c1) = next_request_id (while_counting env) c;
                 json_size = strlen coll + strlen doc + strlen d + 256;
                 json = take (json_size - 1)
                          (''{"type":"update","id":"'' @ id' @ ''","collection":"'' @ cstr coll @
                           ''","document_id":"'' @ cstr doc @ ''","data":'' @ cstr d @ ''}'')
             in case send_request c1 sock json id' (node_address env) (while_sending env)
                       (wait_rounds env) of
                  None \<Rightarrow> None
                | Some ((err, response), c2, sock') \<Rightarrow>
                    (case response of
                       None \<Rightarrow> Some ((err, None), Some c2, sock')
                     | Some r \<Rightarrow>
                         if err \<noteq> SQRL_OK then Some ((err, None), Some c2, sock')
                         else Some (document_result r, Some c2, sock')))
      | _ \<Rightarrow> Some ((SQRL_ERR_INVALID_ARG, None), client, sock))\<close>

definition sqrl_delete ::
  "sqrl_client option \<Rightarrow> socket \<Rightarrow> string option \<Rightarrow> string option \<Rightarrow> bool \<Rightarrow> request_env \<Rightarrow>
   ((sqrl_error_t \<times> sqrl_document_t option) \<times> sqrl_client option \<times> socket) option"
where
  \<open>sqrl_delete client sock collection document_id doc_out env =
     (case (client, collection, document_id) of
        (Some c, Some coll, Some doc) \<Rightarrow>
          if \<not> connected c then Some ((SQRL_ERR_CLOSED, None), client, sock)
          else
            (let (id', c1) = next_request_id (while_counting env) c;
                 json_size = strlen coll + strlen doc + 256;
                 json = take (json_size - 1)
                          (''{"type":"delete","id":"'' @ id' @ ''","collection":"'' @ cstr coll @
                           ''","document_id":"'' @ cstr doc @ ''"}'')
             in case send_request c1 sock json id' (node_address env) (while_sending env)
                       (wait_rounds env) of
                  None \<Rightarrow> None
                | Some ((err, response), c2, sock') \<Rightarrow>
                    (case response of
                       None \<Rightarrow> Some ((err, None), Some c2, sock')
                     | Some r \<Rightarrow>
                         if err \<noteq> SQRL_OK then Some ((err, None), Some c2, sock')
                         else if json_get_string r ''type'' = Some ''error'' then
                           Some ((SQRL_ERR_SERVER, None), Some c2, sock')
                         else
                           Some ((SQRL_OK,
                                  if doc_out then map_option parse_document (json_get_object r ''data'')
                                  else None),
                                 Some c2, sock')))
      | _ \<Rightarrow> Some ((SQRL_ERR_INVALID_ARG, None), client, sock))\<close>

text \<open>
  The two loops of \<^verbatim>\<open>sqrl_list_collections\<close> over the text behind \<^verbatim>\<open>"data":\<close>: the first
  counts the opening double quotes up to the closing bracket, the second collects the names
  between double quotes, at most as many as were counted.
\<close>

function count_names :: "string \<Rightarrow> nat \<Rightarrow> nat" where
  "count_names [] count = count"
| "count_names (c # p) count =
     (if c = CHR '']'' then count
      else if c = DQUOTE then
        (case dropWhile (\<lambda>x. x \<noteq> DQUOTE) p of
           [] \<Rightarrow> count + 1
         | q # p' \<Rightarrow> count_names p' (count + 1))
      else count_names p count)"
  by pat_completeness auto
termination
proof (relation "measure (\<lambda>(p, count). length p)")
  show "wf (measure (\<lambda>(p, count). length p))" by simp
next
  fix c :: char and p :: string and count :: nat and q p'
  assume "dropWhile (\<lambda>x. x \<noteq> DQUOTE) p = q # p'"
  then have "length (q # p') \<le> length p"
    using length_dropWhile_le [of "\<lambda>x. x \<noteq> DQUOTE" p] by simp
  then show "((p', count + 1), c # p, count) \<in> measure (\<lambda>(p, count). length p)" by simp
next
  fix c :: char and p :: string and count :: nat
  show "((p, count), c # p, count) \<in> measure (\<lambda>(p, count). length p)" by simp
qed

lemma strchr_length:
  assumes "strchr s c = Some e"
  shows "length e \<le> length s"
proof -
  from assms have "e = dropWhile (\<lambda>x. x \<noteq> c) s"
    by (auto simp: strchr_def split: list.splits)
  then show ?thesis by (simp add: length_dropWhile_le)
qed

function collect_names :: "string \<Rightarrow> nat \<Rightarrow> nat \<Rightarrow> string list" where
  "collect_names [] i count = []"
| "collect_names (c # p) i count =
     (if c = CHR '']'' \<or> \<not> i < count then []
      else if c = DQUOTE then
        (case strchr p DQUOTE of
           Some end \<Rightarrow> take (length p - length end) p # collect_names (tl end) (i + 1) count
         | None \<Rightarrow> (case p of [] \<Rightarrow> [] | q # p' \<Rightarrow> collect_names p' i count))
      else collect_names p i count)"
  by pat_completeness auto
termination
proof (relation "measure (\<lambda>(p, i, count). length p)")
  show "wf (measure (\<lambda>(p, i, count). length p))" by simp
next
  fix c :: char and p :: string and i count :: nat and e
  assume "strchr p DQUOTE = Some e"
  then have "length e \<le> length p" by (rule strchr_length)
  then show "((tl e, i + 1, count), c # p, i, count) \<in> measure (\<lambda>(p, i, count). length p)"
    by simp
next
  fix c :: char and p :: string and i count :: nat and q p'
  assume "p = q # p'"
  then show "((p', i, count), c # p, i, count) \<in> measure (\<lambda>(p, i, count). length p)" by simp
next
  fix c :: char and p :: string and i count :: nat
  show "((p, i, count), c # p, i, count) \<in> measure (\<lambda>(p, i, count). length p)" by simp
qed

definition collection_names :: "string \<Rightarrow> string list" where
  \<open>collection_names response =
     (case strstr response ''"data":'' of
        None \<Rightarrow> []
      | Some found \<Rightarrow>
          (let data = dropWhile (\<lambda>c. c = CHR '' '' \<or> c = CHR ''['') (drop 7 found);
               count = count_names data 0
           in if count > 0 then collect_names data 0 count else []))\<close>

definition sqrl_list_collections ::
  "sqrl_client option \<Rightarrow> socket \<Rightarrow> bool \<Rightarrow> bool \<Rightarrow> request_env \<Rightarrow>
   ((sqrl_error_t \<times> string list) \<times> sqrl_client option \<times> socket) option"
where
  \<open>sqrl_list_collections client sock names_out count_out env =
     (case client of
        None \<Rightarrow> Some ((SQRL_ERR_INVALID_ARG, []), client, sock)
      | Some c \<Rightarrow>
          if \<not> names_out \<or> \<not> count_out then Some ((SQRL_ERR_INVALID_ARG, []), client, sock)
          else if \<not> connected c then Some ((SQRL_ERR_CLOSED, []), client, sock)
          else
            (let (id', c1) = next_request_id (while_counting env) c;
                 json = take 255 (''{"type":"listcollections","id":"'' @ id' @ ''"}'')
             in case send_request c1 sock json id' (node_address env) (while_sending env)
                       (wait_rounds env) of
                  None \<Rightarrow> None
                | Some ((err, response), c2, sock') \<Rightarrow>
                    (case response of
                       None \<Rightarrow> Some ((err, []), Some c2, sock')
                     | Some r \<Rightarrow>
                         if err \<noteq> SQRL_OK then Some ((err, []), Some c2, sock')
                         else if json_get_string r ''type'' = Some ''error'' then
                           Some ((SQRL_ERR_SERVER, []), Some c2, sock')
                         else Some ((SQRL_OK, collection_names r), Some c2, sock'))))\<close>

subsection \<open>Subscriptions\<close>

text \<open>
  A \<^verbatim>\<open>sqrl_subscription_t\<close>: the id, and whether its client pointer is set. The client it
  points to is the client of the call.
\<close>

record sqrl_subscription_t =
  subscription_id :: string
  subscription_client :: bool

definition sqrl_subscribe ::
  "sqrl_client option \<Rightarrow> socket \<Rightarrow> string option \<Rightarrow> nat option \<Rightarrow> nat \<Rightarrow> bool \<Rightarrow> request_env \<Rightarrow>
   ((sqrl_error_t \<times> sqrl_subscription_t option) \<times> sqrl_client option \<times> socket) option"
where
  \<open>sqrl_subscribe client sock query callback user_data sub_out env =
     (case (client, query, callback) of
        (Some c, Some q, Some cb) \<Rightarrow>
          if \<not> sub_out then Some ((SQRL_ERR_INVALID_ARG, None), client, sock)
          else if \<not> connected c then Some ((SQRL_ERR_CLOSED, None), client, sock)
          else
            (let (id', c1) = next_request_id (while_counting env) c;
                 json_size = strlen q * 2 + 256;
                 json = take (json_size - 1)
                          (''{"type":"subscribe","id":"'' @ id' @ ''","query":"'' @ cstr q @ ''"}'')
             in case send_request c1 sock json id' (node_address env) (while_sending env)
                       (wait_rounds env) of
                  None \<Rightarrow> None
                | Some ((err, response), c2, sock') \<Rightarrow>
                    (case response of
                       None \<Rightarrow> Some ((err, None), Some c2, sock')
                     | Some r \<Rightarrow>
                         if err \<noteq> SQRL_OK then Some ((err, None), Some c2, sock')
                         else if json_get_string r ''type'' = Some ''error'' then
                           Some ((SQRL_ERR_SERVER, None), Some c2, sock')
                         else
                           (let entry = \<lparr>sub_id = id', sub_callback = cb, sub_user_data = user_data\<rparr>;
                                c3 = c2\<lparr>subscriptions := entry # subscriptions c2\<rparr>
                            in Some ((SQRL_OK,
                                      Some \<lparr>subscription_id = id', subscription_client = True\<rparr>),
                                     Some c3, sock'))))
      | _ \<Rightarrow> Some ((SQRL_ERR_INVALID_ARG, None), client, sock))\<close>

fun remove_subscription :: "string \<Rightarrow> subscription_entry_t list \<Rightarrow> subscription_entry_t list" where
  "remove_subscription id' [] = []"
| "remove_subscription id' (entry # entries) =
     (if sub_id entry = id' then entries else entry # remove_subscription id' entries)"

text \<open>
  \<^verbatim>\<open>sqrl_unsubscribe\<close>. The client is the one the handle points to; a handle whose client
  has been freed is a dangling pointer, and the call has no defined result (\<open>None\<close>).
\<close>

definition sqrl_unsubscribe ::
  "sqrl_subscription_t option \<Rightarrow> sqrl_client option \<Rightarrow> socket \<Rightarrow>
   (sqrl_error_t \<times> sqrl_client option \<times> socket) option"
where
  \<open>sqrl_unsubscribe sub client sock =
     (case sub of
        None \<Rightarrow> Some (SQRL_ERR_INVALID_ARG, client, sock)
      | Some s \<Rightarrow>
          if \<not> subscription_client s then Some (SQRL_ERR_INVALID_ARG, client, sock)
          else
            (case client of
               None \<Rightarrow> None
             | Some c \<Rightarrow>
                 (let c1 = c\<lparr>subscriptions := remove_subscription (subscription_id s) (subscriptions c)\<rparr>
                  in if connected c1 then
                       (case send_frame sock
                               (take 255 (''{"type":"unsubscribe","id":"'' @ subscription_id s @ ''"}'')) of
                          None \<Rightarrow> None
                        | Some (err, sock') \<Rightarrow> Some (SQRL_OK, Some c1, sock'))
                     else Some (SQRL_OK, Some c1, sock))))\<close>

definition sqrl_subscription_id :: "sqrl_subscription_t option \<Rightarrow> string option" where
  "sqrl_subscription_id sub = map_option subscription_id sub"

section \<open>The initialisation flag\<close>

subsection \<open>A program that uses the library\<close>

text \<open>
  \<^verbatim>\<open>g_initialized\<close> is a static variable of \<^verbatim>\<open>squirreldb.c\<close>, so only the functions of
  that file can name it. A program that uses the library holds it, the client that
  \<^verbatim>\<open>sqrl_connect\<close> gave it and the socket of that client. A call is one public function of
  \<^verbatim>\<open>squirreldb.c\<close> with its arguments and with what the call meets outside the library;
  \<open>Call_free\<close> stands for the four functions that only release memory
  (\<^verbatim>\<open>sqrl_document_free\<close>, \<^verbatim>\<open>sqrl_change_event_free\<close>, \<^verbatim>\<open>sqrl_string_free\<close>,
  \<^verbatim>\<open>sqrl_string_array_free\<close>). \<open>run_call\<close> hands every function the variables its body
  reads and stores what it writes.
\<close>

record program =
  g_initialized :: bool
  held_client :: "sqrl_client option"
  held_socket :: socket

datatype api_call =
    Call_init
  | Call_cleanup
  | Call_error_string sqrl_error_t
  | Call_options_default
  | Call_connect bool "string option" uint16_t "sqrl_options_t option" connect_env
  | Call_disconnect
  | Call_session_id
  | Call_is_connected
  | Call_ping request_env
  | Call_query "string option" bool request_env
  | Call_insert "string option" "string option" bool request_env
  | Call_update "string option" "string option" "string option" bool request_env
  | Call_delete "string option" "string option" bool request_env
  | Call_list_collections bool bool request_env
  | Call_subscribe "string option" "nat option" nat bool request_env
  | Call_unsubscribe "sqrl_subscription_t option"
  | Call_subscription_id "sqrl_subscription_t option"
  | Call_free

datatype api_result =
    Returned_nothing
  | Returned_error sqrl_error_t
  | Returned_string "string option"
  | Returned_bool bool
  | Returned_options sqrl_options_t
  | Returned_query sqrl_error_t "string option"
  | Returned_document sqrl_error_t "sqrl_document_t option"
  | Returned_names sqrl_error_t "string list"
  | Returned_subscription sqrl_error_t "sqrl_subscription_t option"

text \<open>The functions that work on the connection return the client and the socket as they leave them.\<close>

definition on_connection ::
  "('r \<Rightarrow> api_result) \<Rightarrow> ('r \<times> sqrl_client option \<times> socket) option \<Rightarrow> program \<Rightarrow>
   (api_result \<times> program) option"
where
  "on_connection ret outcome p =
     (case outcome of
        None \<Rightarrow> None
      | Some (r, client, sock) \<Rightarrow> Some (ret r, p\<lparr>held_client := client, held_socket := sock\<rparr>))"

fun run_call :: "api_call \<Rightarrow> program \<Rightarrow> (api_result \<times> program) option" where
  "run_call Call_init p =
     (let (err, g) = sqrl_init (g_initialized p) in Some (Returned_error err, p\<lparr>g_initialized := g\<rparr>))"
| "run_call Call_cleanup p =
     Some (Returned_nothing, p\<lparr>g_initialized := sqrl_cleanup (g_initialized p)\<rparr>)"
| "run_call (Call_error_string err) p = Some (Returned_string (Some (sqrl_error_string err)), p)"
| "run_call Call_options_default p = Some (Returned_options sqrl_options_default, p)"
| "run_call (Call_connect client_out host port options env) p =
     (case sqrl_connect client_out host port options env of
        None \<Rightarrow> None
      | Some (err, None) \<Rightarrow> Some (Returned_error err, p)
      | Some (err, Some (client, sock)) \<Rightarrow>
          Some (Returned_error err, p\<lparr>held_client := Some client, held_socket := sock\<rparr>))"
| "run_call Call_disconnect p =
     Some (Returned_nothing, p\<lparr>held_client := sqrl_disconnect (held_client p)\<rparr>)"
| "run_call Call_session_id p = Some (Returned_string (sqrl_session_id (held_client p)), p)"
| "run_call Call_is_connected p = Some (Returned_bool (sqrl_is_connected (held_client p)), p)"
| "run_call (Call_ping env) p =
     on_connection Returned_error (sqrl_ping (held_client p) (held_socket p) env) p"
| "run_call (Call_query query result_out env) p =
     on_connection (\<lambda>(err, result). Returned_query err result)
       (sqrl_query (held_client p) (held_socket p) query result_out env) p"
| "run_call (Call_insert collection data doc_out env) p =
     on_connection (\<lambda>(err, doc). Returned_document err doc)
       (sqrl_insert (held_client p) (held_socket p) collection data doc_out env) p"
| "run_call (Call_update collection document_id data doc_out env) p =
     on_connection (\<lambda>(err, doc). Returned_document err doc)
       (sqrl_update (held_client p) (held_socket p) collection document_id data doc_out env) p"
| "run_call (Call_delete collection document_id doc_out env) p =
     on_connection (\<lambda>(err, doc). Returned_document err doc)
       (sqrl_delete (held_client p) (held_socket p) collection document_id doc_out env) p"
| "run_call (Call_list_collections names_out count_out env) p =
     on_connection (\<lambda>(err, names). Returned_names err names)
       (sqrl_list_collections (held_client p) (held_socket p) names_out count_out env) p"
| "run_call (Call_subscribe query callback user_data sub_out env) p =
     on_connection (\<lambda>(err, sub). Returned_subscription err sub)
       (sqrl_subscribe (held_client p) (held_socket p) query callback user_data sub_out env) p"
| "run_call (Call_unsubscribe sub) p =
     on_connection Returned_error (sqrl_unsubscribe sub (held_client p) (held_socket p)) p"
| "run_call (Call_subscription_id sub) p = Some (Returned_string (sqrl_subscription_id sub), p)"
| "run_call Call_free p = Some (Returned_nothing, p)"

subsection \<open>Sequences of calls\<close>

fun is_init_call :: "api_call \<Rightarrow> bool" where
  "is_init_call Call_init = True"
| "is_init_call Call_cleanup = True"
| "is_init_call call = False"

fun run_calls :: "api_call list \<Rightarrow> program \<Rightarrow> (api_result list \<times> program) option" where
  "run_calls [] p = Some ([], p)"
| "run_calls (call # calls) p =
     (case run_call call p of
        None \<Rightarrow> None
      | Some (r, p') \<Rightarrow>
          (case run_calls calls p' of
             None \<Rightarrow> None
           | Some (rs, p'') \<Rightarrow> Some (r # rs, p'')))"

text \<open>The results of the calls other than \<^verbatim>\<open>sqrl_init\<close> and \<^verbatim>\<open>sqrl_cleanup\<close>, in order.\<close>

definition other_results :: "api_call list \<Rightarrow> api_result list \<Rightarrow> api_result list" where
  "other_results calls rs = map snd (filter (\<lambda>(call, r). \<not> is_init_call call) (zip calls rs))"

subsection \<open>The flag is a frame\<close>

lemma on_connection_flag:
  "on_connection ret outcome (p\<lparr>g_initialized := b\<rparr>) =
   map_option (\<lambda>(r, p'). (r, p'\<lparr>g_initialized := b\<rparr>)) (on_connection ret outcome p)"
  by (simp add: on_connection_def split: option.splits)

lemma run_call_flag:
  assumes "\<not> is_init_call call"
  shows "run_call call (p\<lparr>g_initialized := b\<rparr>) =
         map_option (\<lambda>(r, p'). (r, p'\<lparr>g_initialized := b\<rparr>)) (run_call call p)"
  using assms
  by (cases call) (simp_all add: on_connection_flag split: option.splits prod.splits)

lemma run_call_keeps_flag:
  assumes "\<not> is_init_call call" and "run_call call p = Some (r, p')"
  shows "g_initialized p' = g_initialized p"
  using assms
  by (cases call) (auto simp: on_connection_def split: option.splits prod.splits)

lemma run_call_init: "run_call Call_init p = Some (Returned_error SQRL_OK, p\<lparr>g_initialized := True\<rparr>)"
  by (simp add: sqrl_init_def)


lemma run_calls_flag:
  assumes "\<forall>call \<in> set calls. \<not> is_init_call call"
  shows "run_calls calls (p\<lparr>g_initialized := b\<rparr>) =
         map_option (\<lambda>(rs, p'). (rs, p'\<lparr>g_initialized := b\<rparr>)) (run_calls calls p)"
  using assms
proof (induction calls arbitrary: p)
  case Nil
  show ?case by simp
next
  case (Cons call calls)
  have step: "run_call call (p\<lparr>g_initialized := b\<rparr>) =
              map_option (\<lambda>(r, p'). (r, p'\<lparr>g_initialized := b\<rparr>)) (run_call call p)"
    using Cons.prems by (simp add: run_call_flag)
  have rest: "\<And>q. run_calls calls (q\<lparr>g_initialized := b\<rparr>) =
                   map_option (\<lambda>(rs, p'). (rs, p'\<lparr>g_initialized := b\<rparr>)) (run_calls calls q)"
    using Cons.IH Cons.prems by simp
  show ?case
    by (simp add: step rest split: option.splits prod.splits)
qed

lemma other_results_Cons:
  "other_results (call # calls) (r # rs) =
   (if is_init_call call then other_results calls rs else r # other_results calls rs)"
  by (simp add: other_results_def)

lemma run_call_init_call:
  assumes "is_init_call call"
  shows "\<exists>r b. run_call call p = Some (r, p\<lparr>g_initialized := b\<rparr>)"
  using assms by (cases call) (auto simp: sqrl_init_def)

lemma run_calls_without_init:
  "run_calls (filter (\<lambda>call. \<not> is_init_call call) calls) p =
   map_option (\<lambda>(rs, p'). (other_results calls rs, p'\<lparr>g_initialized := g_initialized p\<rparr>))
     (run_calls calls p)"
proof (induction calls arbitrary: p)
  case Nil
  show ?case by (simp add: other_results_def)
next
  case (Cons call calls)
  let ?others = "filter (\<lambda>call. \<not> is_init_call call) calls"
  show ?case
  proof (cases "is_init_call call")
    case True
    obtain r b where call: "run_call call p = Some (r, p\<lparr>g_initialized := b\<rparr>)"
      using run_call_init_call [OF True] by blast
    have restored: "p\<lparr>g_initialized := b\<rparr>\<lparr>g_initialized := g_initialized p\<rparr> = p"
      by simp
    have "run_calls ?others p =
          map_option (\<lambda>(rs, p'). (rs, p'\<lparr>g_initialized := g_initialized p\<rparr>))
            (run_calls ?others (p\<lparr>g_initialized := b\<rparr>))"
      using run_calls_flag [where calls = ?others and p = "p\<lparr>g_initialized := b\<rparr>"
            and b = "g_initialized p"]
      by (simp only: restored) simp
    also have "\<dots> = map_option
                      (\<lambda>(rs, p'). (other_results calls rs, p'\<lparr>g_initialized := g_initialized p\<rparr>))
                      (run_calls calls (p\<lparr>g_initialized := b\<rparr>))"
      by (simp add: Cons.IH [of "p\<lparr>g_initialized := b\<rparr>"] option.map_comp comp_def
          split_def)
    finally show ?thesis
      using True call
      by (simp add: other_results_Cons split: option.splits prod.splits)
  next
    case False
    show ?thesis
    proof (cases "run_call call p")
      case None
      then show ?thesis using False by simp
    next
      case (Some a)
      obtain r p1 where a: "a = (r, p1)" by (cases a)
      have flag: "g_initialized p1 = g_initialized p"
        using run_call_keeps_flag [OF False] Some a by simp
      show ?thesis
        using False Some a Cons.IH [of p1]
        by (simp add: flag other_results_Cons split: option.splits prod.splits)
    qed
  qed
qed


text \<open>
  C10. \<^verbatim>\<open>sqrl_init\<close> returns \<^verbatim>\<open>SQRL_OK\<close> whatever the flag holds, so in every program
  state, after any calls of \<^verbatim>\<open>sqrl_init\<close> and \<^verbatim>\<open>sqrl_cleanup\<close> in any order, and leaves
  the flag set. No other public function consults the flag: a call of any of them returns
  the same result and leaves the same client and socket whatever the flag holds, and does
  not change the flag. Hence removing every call of \<^verbatim>\<open>sqrl_init\<close> and \<^verbatim>\<open>sqrl_cleanup\<close>
  from a sequence of calls changes neither whether the sequence returns, nor the result of
  any other call, nor the client and the socket at the end.
\<close>

theorem init_flag_is_never_consulted:
  "fst (sqrl_init g) = SQRL_OK \<and>
   run_call Call_init p = Some (Returned_error SQRL_OK, p\<lparr>g_initialized := True\<rparr>) \<and>
   (\<not> is_init_call call \<longrightarrow>
      run_call call (p\<lparr>g_initialized := b\<rparr>) =
      map_option (\<lambda>(r, p'). (r, p'\<lparr>g_initialized := b\<rparr>)) (run_call call p)) \<and>
   run_calls (filter (\<lambda>call. \<not> is_init_call call) calls) p =
   map_option (\<lambda>(rs, p'). (other_results calls rs, p'\<lparr>g_initialized := g_initialized p\<rparr>))
     (run_calls calls p)"
proof -
  have "fst (sqrl_init g) = SQRL_OK"
    by (simp add: sqrl_init_def)
  moreover note run_call_init [of p]
  moreover have "\<not> is_init_call call \<longrightarrow>
      run_call call (p\<lparr>g_initialized := b\<rparr>) =
      map_option (\<lambda>(r, p'). (r, p'\<lparr>g_initialized := b\<rparr>)) (run_call call p)"
    using run_call_flag [where call = call and p = p and b = b] by blast
  moreover note run_calls_without_init [of calls p]
  ultimately show ?thesis by blast
qed

text \<open>
  The theorem at a session of the example client: a ping that nobody answers, between
  calls of \<^verbatim>\<open>sqrl_init\<close> and \<^verbatim>\<open>sqrl_cleanup\<close>.
\<close>

definition impatient :: request_env where
  "impatient = \<lparr>node_address = 101, while_counting = (\<lambda>c. c), while_sending = (\<lambda>c. c),
                 wait_rounds = [(\<lambda>c. c, ETIMEDOUT)]\<rparr>"

definition busy_program :: program where
  "busy_program = \<lparr>g_initialized = False, held_client = Some busy_client, held_socket = quiet_socket\<rparr>"

definition session :: "api_call list" where
  "session = [Call_init, Call_ping impatient, Call_cleanup, Call_is_connected, Call_init,
              Call_init, Call_session_id, Call_cleanup, Call_error_string SQRL_ERR_TIMEOUT]"


definition ping_3 :: string where
  \<open>ping_3 = ''{"type":"ping","id":"3"}''\<close>

definition after_ping :: program where
  "after_ping =
     \<lparr>g_initialized = False, held_client = Some (busy_client\<lparr>request_id := 3\<rparr>),
      held_socket = \<lparr>send_script = [], select_script = [], recv_script = [],
                      sent = [0, 0, 0, 26, 1, 2] @ map byte_of_char ping_3\<rparr>\<rparr>"

lemma send_frame_ping_3:
  "send_frame quiet_socket ping_3 = Some (SQRL_OK, held_socket after_ping)"
proof -
  have s: "strlen ping_3 = 24" by (simp add: strlen_def cstr_def ping_3_def)
  have c: "take 24 ping_3 = ping_3" by (simp add: ping_3_def)
  have b: "send_frame_buffer ping_3 = [0, 0, 0, 26, 1, 2] @ map byte_of_char ping_3"
    by (simp add: send_frame_buffer_def s c write_u32_be_def MSG_TYPE_REQUEST_def)
  have l: "length ([0, 0, 0, 26, 1, 2] @ map byte_of_char ping_3) = 30"
    by (simp add: ping_3_def)
  show ?thesis
    unfolding send_frame_def b
    by (simp add: send_all_def quiet_socket_def send_all_loop.simps after_ping_def ping_3_def)
qed

lemma sqrl_ping_impatient:
  "sqrl_ping (Some busy_client) quiet_socket impatient =
   Some (SQRL_ERR_TIMEOUT, held_client after_ping, held_socket after_ping)"
proof -
  have id3: "next_request_id (\<lambda>c. c) busy_client = (''3'', busy_client\<lparr>request_id := 3\<rparr>)"
    by (simp add: next_request_id_eq busy_client_def fmt_llu_def decimal_digits)
  have conn: "connected busy_client" by (simp add: busy_client_def)
  have sent: "send_request (busy_client\<lparr>request_id := 3\<rparr>) quiet_socket ping_3 ''3'' 101
                (\<lambda>c. c) [(\<lambda>c. c, ETIMEDOUT)] =
              Some ((SQRL_ERR_TIMEOUT, None), busy_client\<lparr>request_id := 3\<rparr>, held_socket after_ping)"
    by (rule send_request_times_out [OF send_frame_ping_3])
  have c: "held_client after_ping = Some (busy_client\<lparr>request_id := 3\<rparr>)"
    by (simp add: after_ping_def)
  show ?thesis
    unfolding c
    by (simp add: sqrl_ping_def impatient_def conn id3 sent [unfolded ping_3_def])
qed


lemma after_ping_fields:
  "busy_program\<lparr>held_client := held_client after_ping, held_socket := held_socket after_ping\<rparr> =
   after_ping"
  "after_ping\<lparr>g_initialized := False\<rparr> = after_ping"
  "sqrl_is_connected (held_client after_ping) = True"
  "sqrl_session_id (held_client after_ping) = Some ''12345678-9abc-def0-0102-030405060708''"
  by (simp_all add: busy_program_def after_ping_def sqrl_is_connected_def sqrl_session_id_def
      busy_client_def)

lemma run_call_ping_impatient:
  "run_call (Call_ping impatient) (busy_program\<lparr>g_initialized := b\<rparr>) =
   Some (Returned_error SQRL_ERR_TIMEOUT, after_ping\<lparr>g_initialized := b\<rparr>)"
proof -
  have "held_client (busy_program\<lparr>g_initialized := b\<rparr>) = Some busy_client"
    and "held_socket (busy_program\<lparr>g_initialized := b\<rparr>) = quiet_socket"
    by (simp_all add: busy_program_def)
  then have "run_call (Call_ping impatient) (busy_program\<lparr>g_initialized := b\<rparr>) =
             Some (Returned_error SQRL_ERR_TIMEOUT,
                   busy_program\<lparr>g_initialized := b, held_client := held_client after_ping,
                     held_socket := held_socket after_ping\<rparr>)"
    by (simp add: on_connection_def sqrl_ping_impatient)
  also have "busy_program\<lparr>g_initialized := b, held_client := held_client after_ping,
               held_socket := held_socket after_ping\<rparr> = after_ping\<lparr>g_initialized := b\<rparr>"
    by (simp add: busy_program_def after_ping_def)
  finally show ?thesis .
qed

lemma run_calls_session:
  "run_calls session busy_program =
   Some ([Returned_error SQRL_OK, Returned_error SQRL_ERR_TIMEOUT, Returned_nothing,
          Returned_bool True, Returned_error SQRL_OK, Returned_error SQRL_OK,
          Returned_string (Some ''12345678-9abc-def0-0102-030405060708''), Returned_nothing,
          Returned_string (Some ''Timeout'')], after_ping)"
  by (simp add: session_def sqrl_init_def sqrl_cleanup_def run_call_ping_impatient
      after_ping_fields del: run_call.simps(9))

theorem init_flag_is_never_consulted_witness:
  "fst (sqrl_init True) = SQRL_OK \<and>
   run_call Call_init busy_program =
     Some (Returned_error SQRL_OK, busy_program\<lparr>g_initialized := True\<rparr>) \<and>
   \<not> is_init_call (Call_ping impatient) \<and>
   run_call (Call_ping impatient) busy_program =
     Some (Returned_error SQRL_ERR_TIMEOUT, after_ping) \<and>
   run_call (Call_ping impatient) (busy_program\<lparr>g_initialized := True\<rparr>) =
     Some (Returned_error SQRL_ERR_TIMEOUT, after_ping\<lparr>g_initialized := True\<rparr>) \<and>
   run_calls session busy_program =
     Some ([Returned_error SQRL_OK, Returned_error SQRL_ERR_TIMEOUT, Returned_nothing,
            Returned_bool True, Returned_error SQRL_OK, Returned_error SQRL_OK,
            Returned_string (Some ''12345678-9abc-def0-0102-030405060708''), Returned_nothing,
            Returned_string (Some ''Timeout'')], after_ping) \<and>
   run_calls [Call_ping impatient, Call_is_connected, Call_session_id,
              Call_error_string SQRL_ERR_TIMEOUT] busy_program =
     Some ([Returned_error SQRL_ERR_TIMEOUT, Returned_bool True,
            Returned_string (Some ''12345678-9abc-def0-0102-030405060708''),
            Returned_string (Some ''Timeout'')], after_ping)"
proof -
  have ping: "run_call (Call_ping impatient) busy_program =
              Some (Returned_error SQRL_ERR_TIMEOUT, after_ping)"
    using run_call_ping_impatient [of False] by (simp add: busy_program_def after_ping_fields)
  have others: "filter (\<lambda>call. \<not> is_init_call call) session =
                [Call_ping impatient, Call_is_connected, Call_session_id,
                 Call_error_string SQRL_ERR_TIMEOUT]"
    by (simp add: session_def)
  have flag: "g_initialized busy_program = False" by (simp add: busy_program_def)
  from init_flag_is_never_consulted [of True busy_program "Call_ping impatient" True session]
  show ?thesis
    unfolding others run_calls_session ping
    by (simp add: other_results_def session_def flag after_ping_fields)
qed

section \<open>Callers at the same time\<close>

subsection \<open>Two calls of \<^verbatim>\<open>next_request_id\<close> that overlap\<close>

text \<open>
  The pending list, the subscription list and the socket's write path each have their
  mutex; the counter \<^verbatim>\<open>request_id\<close> has none. When two threads send a request on one
  client, the call of \<^verbatim>\<open>next_request_id\<close> by one of them can fall between the read and
  the write of the counter by the other. \<open>other_call\<close> is such a call, as what it does to the
  client; the id it returns is the one that \<^verbatim>\<open>next_request_id\<close> gives in the state it
  finds.
\<close>

definition other_call :: "sqrl_client \<Rightarrow> sqrl_client" where
  "other_call client = snd (next_request_id (\<lambda>c. c) client)"

text \<open>A client as \<^verbatim>\<open>sqrl_connect\<close> leaves it: connected, the counter at 0, nothing pending.\<close>

definition new_connection :: sqrl_client where
  "new_connection =
     \<lparr>fd = 3, session_id = Some ''12345678-9abc-def0-0102-030405060708'',
      encoding = Some SQRL_ENCODING_JSON, connected = True, request_id = 0,
      request_timeout_ms = 30000, reader_running = True, pending_requests = [],
      subscriptions = []\<rparr>"

lemma next_request_id_new_connection:
  "next_request_id (\<lambda>c. c) new_connection = (''1'', new_connection\<lparr>request_id := 1\<rparr>)"
  "next_request_id other_call new_connection = (''1'', new_connection\<lparr>request_id := 1\<rparr>)"
  by (simp_all add: next_request_id_eq other_call_def new_connection_def fmt_llu_def decimal_digits)

text \<open>
  C8 fails on the code: ids are not unique among the requests outstanding at the same time.
  On a new connection, a call of \<^verbatim>\<open>next_request_id\<close> and the call of another thread that
  falls between its read and its write of the counter both return the id \<^verbatim>\<open>1\<close>, and both
  leave the counter at 1. Each caller then registers its node in \<^verbatim>\<open>send_request\<close>, which
  does not look at the ids already there: the pending list holds two nodes with the id
  \<^verbatim>\<open>1\<close>.
\<close>

theorem overlapping_calls_get_one_id:
  "next_request_id other_call new_connection = (''1'', new_connection\<lparr>request_id := 1\<rparr>) \<and>
   next_request_id (\<lambda>c. c) new_connection = (''1'', new_connection\<lparr>request_id := 1\<rparr>) \<and>
   pending_requests
     (register_request (register_request (new_connection\<lparr>request_id := 1\<rparr>) 100 ''1'') 101 ''1'') =
     [(101, new_request ''1''), (100, new_request ''1'')] \<and>
   map (req_id \<circ> snd)
     (pending_requests
        (register_request (register_request (new_connection\<lparr>request_id := 1\<rparr>) 100 ''1'') 101 ''1'')) =
     [''1'', ''1''] \<and>
   \<not> distinct
       (map (req_id \<circ> snd)
          (pending_requests
             (register_request (register_request (new_connection\<lparr>request_id := 1\<rparr>) 100 ''1'') 101
                ''1'')))"
proof -
  have r: "pending_requests
     (register_request (register_request (new_connection\<lparr>request_id := 1\<rparr>) 100 ''1'') 101 ''1'') =
     [(101, new_request ''1''), (100, new_request ''1'')]"
    by (simp add: register_request_def new_connection_def)
  have m: "map (req_id \<circ> snd) [(101, new_request ''1''), (100, new_request ''1'')] = [''1'', ''1'']"
    by (simp add: new_request_def)
  have d: "\<not> distinct [''1'', ''1'']" by simp
  from next_request_id_new_connection r m d show ?thesis by simp
qed

subsection \<open>A timeout beside a request with the same id\<close>

text \<open>
  The first thread calls \<^verbatim>\<open>sqrl_ping\<close>. The second thread's \<^verbatim>\<open>next_request_id\<close> falls
  between the read and the write of the counter, and the second thread registers its node
  (at address 101, with the id \<^verbatim>\<open>1\<close> it got) while the first writes its frame. Nobody
  answers before the first thread's wait times out. Then the response to the ping arrives.
\<close>

definition ping_1 :: string where
  \<open>ping_1 = ''{"type":"ping","id":"1"}''\<close>

definition pong_1 :: string where
  \<open>pong_1 = ''{"type":"pong","id":"1"}''\<close>

definition racing :: request_env where
  "racing = \<lparr>node_address = 100, while_counting = other_call,
              while_sending = (\<lambda>c. register_request c 101 ''1''),
              wait_rounds = [(\<lambda>c. c, ETIMEDOUT)]\<rparr>"

definition ping_1_sent :: socket where
  "ping_1_sent = \<lparr>send_script = [], select_script = [], recv_script = [],
                   sent = [0, 0, 0, 26, 1, 2] @ map byte_of_char ping_1\<rparr>"

definition after_timeout :: sqrl_client where
  "after_timeout = new_connection\<lparr>request_id := 1, pending_requests := [(101, new_request ''1'')]\<rparr>"

lemma send_frame_ping_1:
  "send_frame quiet_socket ping_1 = Some (SQRL_OK, ping_1_sent)"
proof -
  have s: "strlen ping_1 = 24" by (simp add: strlen_def cstr_def ping_1_def)
  have c: "take 24 ping_1 = ping_1" by (simp add: ping_1_def)
  have b: "send_frame_buffer ping_1 = [0, 0, 0, 26, 1, 2] @ map byte_of_char ping_1"
    by (simp add: send_frame_buffer_def s c write_u32_be_def MSG_TYPE_REQUEST_def)
  show ?thesis
    unfolding send_frame_def b
    by (simp add: send_all_def quiet_socket_def send_all_loop.simps ping_1_sent_def ping_1_def)
qed

lemma pong_1_fields:
  "json_get_string pong_1 ''id'' = Some ''1''" "json_get_string pong_1 ''type'' = Some ''pong''"
  by (simp_all add: pong_1_def json_get_string_def strchr_def)

lemma sqrl_ping_racing:
  "sqrl_ping (Some new_connection) quiet_socket racing =
   Some (SQRL_ERR_TIMEOUT, Some after_timeout, ping_1_sent)"
proof -
  have conn: "connected new_connection" by (simp add: new_connection_def)
  have w: "send_request (new_connection\<lparr>request_id := 1\<rparr>) quiet_socket ping_1 ''1'' 100
             (\<lambda>c. register_request c 101 ''1'') [(\<lambda>c. c, ETIMEDOUT)] =
           Some ((SQRL_ERR_TIMEOUT, None), after_timeout, ping_1_sent)"
    by (simp add: send_request_def send_frame_ping_1 register_request_def new_request_def
        wait_round_def remove_request_def after_timeout_def new_connection_def)
  show ?thesis
    by (simp add: sqrl_ping_def racing_def conn next_request_id_new_connection
        w [unfolded ping_1_def])
qed

text \<open>
  C2 fails on the code, from the same unguarded counter as C8. The call of \<^verbatim>\<open>sqrl_ping\<close>
  sends its ping with the id \<^verbatim>\<open>1\<close> and returns \<^verbatim>\<open>SQRL_ERR_TIMEOUT\<close>, having unlinked
  its own node; but the pending list still holds the id \<^verbatim>\<open>1\<close>, in the node of the other
  thread. The late response with the id \<^verbatim>\<open>1\<close> is not dropped: the reader thread stores
  it in that node and marks the node completed.
\<close>

theorem timed_out_id_is_still_pending:
  "next_request_id (\<lambda>c. c) new_connection = (''1'', new_connection\<lparr>request_id := 1\<rparr>) \<and>
   sqrl_ping (Some new_connection) quiet_socket racing =
     Some (SQRL_ERR_TIMEOUT, Some after_timeout, ping_1_sent) \<and>
   sent ping_1_sent = [0, 0, 0, 26, 1, 2] @ map byte_of_char ping_1 \<and>
   pending_requests after_timeout = [(101, new_request ''1'')] \<and>
   ''1'' \<in> set (map (req_id \<circ> snd) (pending_requests after_timeout)) \<and>
   json_get_string pong_1 ''id'' = Some ''1'' \<and>
   reader_dispatch after_timeout pong_1 =
     (after_timeout\<lparr>pending_requests :=
        [(101, \<lparr>req_id = ''1'', req_response = Some pong_1, req_error = SQRL_OK,
                req_completed = True\<rparr>)]\<rparr>, []) \<and>
   fst (reader_dispatch after_timeout pong_1) \<noteq> after_timeout"
proof -
  have d: "reader_dispatch after_timeout pong_1 =
     (after_timeout\<lparr>pending_requests :=
        [(101, \<lparr>req_id = ''1'', req_response = Some pong_1, req_error = SQRL_OK,
                req_completed = True\<rparr>)]\<rparr>, [])"
    by (simp add: reader_dispatch_def pong_1_fields dispatch_response_def after_timeout_def
        new_request_def)
  have n: "fst (reader_dispatch after_timeout pong_1) \<noteq> after_timeout"
    unfolding d by (simp add: after_timeout_def new_request_def new_connection_def)
  have p: "pending_requests after_timeout = [(101, new_request ''1'')]"
    by (simp add: after_timeout_def)
  have i: "''1'' \<in> set (map (req_id \<circ> snd) (pending_requests after_timeout))"
    unfolding p by (simp add: new_request_def)
  have s: "sent ping_1_sent = [0, 0, 0, 26, 1, 2] @ map byte_of_char ping_1"
    by (simp add: ping_1_sent_def)
  from next_request_id_new_connection(1) sqrl_ping_racing s p i pong_1_fields(1) d n
  show ?thesis by blast
qed

end
